theory Spec2Isabelle
  imports Main "HOL-Library.Word" "HOL-Library.AList"
begin

unbundle bit_operations_syntax

section \<open>Data model\<close>

text \<open>
  Timestamps (\<open>Date\<close>, \<open>Date.now()\<close>) are milliseconds since the epoch, an \<open>int\<close>.
  Each reading of the clock is an explicit argument of the function that reads it.
  A JavaScript \<open>Map\<close> is an association list in insertion order:
  \<open>map_of\<close> is \<open>get\<close>, \<open>AList.update\<close> is \<open>set\<close> (an existing key keeps its
  position, a new key goes to the end), \<open>AList.delete\<close> is \<open>delete\<close>.
\<close>

text \<open>
  A JavaScript string is a sequence of 16-bit code units. The credential is the one string
  of the program that is converted to bytes and back (it is encrypted and hashed), so it
  is a \<open>jstring\<close>, the list of its code units; \<open>js\<close> writes one from its characters.
  The other strings are only compared and concatenated and stay \<open>string\<close>.
\<close>

type_synonym jstring = "16 word list"

definition js :: "string \<Rightarrow> jstring" where
  "js s = map of_char s"

text \<open>\<open>TenantConfig\<close> (storage/tenant-store.ts). \<open>settings\<close> is a free-form mapping.\<close>

record TenantConfig =
  tenantId :: string
  name :: string
  apiKey :: jstring
  locationId :: string
  baseUrl :: "string option"
  version :: "string option"
  settings :: "(string \<times> string) list option"
  createdAt :: int
  updatedAt :: int
  isActive :: bool

text \<open>\<open>GHLConfig\<close>: what an upstream client is constructed from. The client class itself is
  an external collaborator; a client is identified with the configuration it was built from.\<close>

record GHLConfig =
  accessToken :: jstring
  cfg_baseUrl :: string
  cfg_version :: string
  cfg_locationId :: string

datatype GHLApiClient = GHLApiClient GHLConfig

fun client_config :: "GHLApiClient \<Rightarrow> GHLConfig" where
  "client_config (GHLApiClient c) = c"

section \<open>API client factory\<close>

record CachedClient =
  client :: GHLApiClient
  lastUsed :: int
  cc_tenantId :: string

record GHLApiClientFactory =
  clientCache :: "(string \<times> CachedClient) list"
  maxCacheSize :: int
  ttlMinutes :: int

text \<open>The constructor: \<open>options?.maxCacheSize || 100\<close>, \<open>options?.ttlMinutes || 60\<close>
  (a missing or zero option takes the default).\<close>

definition or_default :: "int option \<Rightarrow> int \<Rightarrow> int" where
  "or_default v d = (case v of None \<Rightarrow> d | Some x \<Rightarrow> if x = 0 then d else x)"

definition new_factory :: "int option \<Rightarrow> int option \<Rightarrow> GHLApiClientFactory" where
  "new_factory optMax optTtl =
     \<lparr>clientCache = [], maxCacheSize = or_default optMax 100, ttlMinutes = or_default optTtl 60\<rparr>"

text \<open>\<open>x || d\<close> on an optional string: a missing or empty string takes the default.\<close>

definition str_or :: "string option \<Rightarrow> string \<Rightarrow> string" where
  "str_or v d = (case v of None \<Rightarrow> d | Some s \<Rightarrow> if s = [] then d else s)"

definition createClient :: "TenantConfig \<Rightarrow> GHLApiClient" where
  "createClient tenant = GHLApiClient
     \<lparr>accessToken = apiKey tenant,
      cfg_baseUrl = str_or (baseUrl tenant) ''https://services.leadconnectorhq.com'',
      cfg_version = str_or (version tenant) ''2021-07-28'',
      cfg_locationId = locationId tenant\<rparr>"

text \<open>\<open>Number.prototype.toString(radix)\<close> on a non-negative integer: the digits
  are \<open>0\<close> to \<open>9\<close> (codes 48 to 57), then \<open>a\<close> to \<open>z\<close> (codes 97 to 122).\<close>

definition digit_char :: "nat \<Rightarrow> char" where
  "digit_char d = (if d < 10 then char_of (48 + d) else char_of (87 + d))"

function toStringRadix :: "nat \<Rightarrow> nat \<Rightarrow> string" where
  "toStringRadix b n =
     (if n < b \<or> b < 2 then [digit_char n]
      else toStringRadix b (n div b) @ [digit_char (n mod b)])"
  by pat_completeness auto
termination
  by (relation "measure (\<lambda>(b, n). n)") auto

declare toStringRadix.simps [simp del]

text \<open>
  \<open>hashString\<close>: \<open>hash = ((hash << 5) - hash) + char; hash = hash & hash\<close> keeps the
  low 32 bits as a signed integer, so the accumulator is a \<open>32 word\<close> read with
  \<open>sint\<close>; the result is \<open>Math.abs(hash).toString(36)\<close>. \<open>charCodeAt\<close> is the code
  unit at the index.
\<close>

definition hash_step :: "32 word \<Rightarrow> 16 word \<Rightarrow> 32 word" where
  "hash_step hash c = (push_bit 5 hash - hash) + of_nat (unat c)"

definition hashString :: "jstring \<Rightarrow> string" where
  "hashString str = toStringRadix 36 (nat \<bar>sint (foldl hash_step 0 str)\<bar>)"

definition getCacheKey :: "TenantConfig \<Rightarrow> string" where
  "getCacheKey tenant = tenantId tenant @ ''_'' @ hashString (apiKey tenant)"

text \<open>
  The loop of \<open>addToCache\<close> that looks for the least recently used entry:
  \<open>oldestKey\<close> starts as \<open>null\<close>, \<open>oldestTime\<close> as the current time, and an entry
  replaces them when its \<open>lastUsed\<close> is strictly older.
\<close>

fun find_oldest :: "(string \<times> CachedClient) list \<Rightarrow> string option \<Rightarrow> int \<Rightarrow> string option" where
  "find_oldest [] oldestKey oldestTime = oldestKey"
| "find_oldest ((k, v) # kvs) oldestKey oldestTime =
     (if lastUsed v < oldestTime then find_oldest kvs (Some k) (lastUsed v)
      else find_oldest kvs oldestKey oldestTime)"

text \<open>\<open>addToCache(key, cached)\<close>; \<open>now\<close> is the clock reading of \<open>let oldestTime = new Date()\<close>.
  \<open>if (oldestKey)\<close> holds for a non-null, non-empty key.\<close>

definition addToCache ::
  "GHLApiClientFactory \<Rightarrow> string \<Rightarrow> CachedClient \<Rightarrow> int \<Rightarrow> GHLApiClientFactory" where
  "addToCache f key cached now =
     (let cache = clientCache f;
          cache' =
            (if int (length cache) \<ge> maxCacheSize f then
               (case find_oldest cache None now of
                  None \<Rightarrow> cache
                | Some oldestKey \<Rightarrow> if oldestKey \<noteq> [] then AList.delete oldestKey cache else cache)
             else cache)
      in f\<lparr>clientCache := AList.update key cached cache'\<rparr>)"

text \<open>
  \<open>getClient(tenant)\<close>. \<open>t_used\<close> is the clock reading stored as \<open>lastUsed\<close> (one
  \<open>new Date()\<close> on either path), \<open>t_evict\<close> the later reading inside \<open>addToCache\<close>.
  The result is the client and the factory after the call.
\<close>

definition getClient ::
  "GHLApiClientFactory \<Rightarrow> TenantConfig \<Rightarrow> int \<Rightarrow> int \<Rightarrow> GHLApiClient \<times> GHLApiClientFactory" where
  "getClient f tenant t_used t_evict =
     (let cacheKey = getCacheKey tenant in
      case map_of (clientCache f) cacheKey of
        Some cached \<Rightarrow>
          (client cached,
           f\<lparr>clientCache := AList.update cacheKey (cached\<lparr>lastUsed := t_used\<rparr>) (clientCache f)\<rparr>)
      | None \<Rightarrow>
          (let c = createClient tenant in
           (c, addToCache f cacheKey
                 \<lparr>client = c, lastUsed = t_used, cc_tenantId = tenantId tenant\<rparr> t_evict)))"

text \<open>A sequence of \<open>getClient\<close> calls, each with its tenant configuration and its two
  clock readings; the result is the factory after the last call.\<close>

fun getClients ::
  "GHLApiClientFactory \<Rightarrow> (TenantConfig \<times> int \<times> int) list \<Rightarrow> GHLApiClientFactory" where
  "getClients f [] = f"
| "getClients f ((c, t_used, t_evict) # calls) =
     getClients (snd (getClient f c t_used t_evict)) calls"

definition cleanupExpiredClients :: "GHLApiClientFactory \<Rightarrow> int \<Rightarrow> GHLApiClientFactory" where
  "cleanupExpiredClients f now =
     f\<lparr>clientCache :=
         filter (\<lambda>(key, cached). \<not> (now - lastUsed cached > ttlMinutes f * 60 * 1000))
           (clientCache f)\<rparr>"

definition clearTenantCache :: "GHLApiClientFactory \<Rightarrow> string \<Rightarrow> GHLApiClientFactory" where
  "clearTenantCache f tid =
     f\<lparr>clientCache := filter (\<lambda>(key, cached). cc_tenantId cached \<noteq> tid) (clientCache f)\<rparr>"

definition clearAllCache :: "GHLApiClientFactory \<Rightarrow> GHLApiClientFactory" where
  "clearAllCache f = f\<lparr>clientCache := []\<rparr>"

text \<open>The process-wide singleton: \<open>factoryInstance\<close> is \<open>null\<close> until first use.\<close>

definition getApiClientFactory :: "GHLApiClientFactory option \<Rightarrow> GHLApiClientFactory" where
  "getApiClientFactory factoryInstance =
     (case factoryInstance of None \<Rightarrow> new_factory None None | Some f \<Rightarrow> f)"

section \<open>Base tool\<close>

text \<open>
  \<open>BaseTool.getClient()\<close>. The request context bound by \<open>AsyncLocalStorage\<close> is the
  argument \<open>context\<close> (\<open>None\<close> when no context is bound); the state is the singleton
  \<open>factoryInstance\<close>, returned updated.
\<close>

record RequestMetadata =
  requestId :: string
  timestamp :: int
  md_source :: string
  userAgent :: "string option"
  ip :: "string option"

record RequestContext =
  tenant :: TenantConfig
  metadata :: RequestMetadata

record BaseTool =
  singleTenantClient :: "GHLApiClient option"

datatype ToolError = NoApiClientAvailable

definition BaseTool_getClient ::
  "BaseTool \<Rightarrow> RequestContext option \<Rightarrow> GHLApiClientFactory option \<Rightarrow> int \<Rightarrow> int
     \<Rightarrow> ToolError + (GHLApiClient \<times> GHLApiClientFactory option)" where
  "BaseTool_getClient this context factoryInstance t_used t_evict =
     (case context of
        Some ctx \<Rightarrow>
          (let (c, f') = getClient (getApiClientFactory factoryInstance) (tenant ctx) t_used t_evict
           in Inr (c, Some f'))
      | None \<Rightarrow>
          (case singleTenantClient this of
             Some c \<Rightarrow> Inr (c, factoryInstance)
           | None \<Rightarrow> Inl NoApiClientAvailable))"

section \<open>Per-tenant rate limiting\<close>

record RateLimitOptions =
  windowMs :: int
  maxRequests :: int
  message :: "string option"

record RateLimitEntry =
  count :: int
  resetTime :: int

text \<open>
  What the middleware does with a request: \<open>Skipped\<close> is \<open>next()\<close> with no header set,
  \<open>Allowed remaining reset\<close> is \<open>next()\<close> after the rate-limit headers, and
  \<open>TooManyRequests retryAfter reset\<close> is the 429 response. Both write the header
  \<open>X-RateLimit-Reset\<close> with \<open>new Date(entry.resetTime).toISOString()\<close>, which throws a
  \<open>RangeError\<close> when the time is outside the range of a \<open>Date\<close> (8.64e15 ms on either
  side of the epoch): \<open>InvalidTimeValue\<close> is that exception, raised after the counter
  has been incremented and before \<open>next()\<close> or the 429 body.
\<close>

datatype RateLimitOutcome =
  Skipped
| Allowed int int
| TooManyRequests int int
| InvalidTimeValue

definition valid_time :: "int \<Rightarrow> bool" where
  "valid_time t = (- 8640000000000000 \<le> t \<and> t \<le> 8640000000000000)"

text \<open>\<open>Math.ceil(x / 1000)\<close> on an integer number of milliseconds.\<close>

definition ceil_div_1000 :: "int \<Rightarrow> int" where
  "ceil_div_1000 x = - ((- x) div 1000)"

text \<open>The handler returned by \<open>createTenantRateLimitMiddleware\<close>; \<open>req_tenantId\<close> is
  \<open>req.tenantId\<close>, and \<open>!req.tenantId\<close> holds when it is undefined or empty.\<close>

definition rateLimit ::
  "RateLimitOptions \<Rightarrow> (string \<times> RateLimitEntry) list \<Rightarrow> string option \<Rightarrow> int
     \<Rightarrow> RateLimitOutcome \<times> (string \<times> RateLimitEntry) list" where
  "rateLimit options tenantLimits req_tenantId now =
     (case req_tenantId of
        None \<Rightarrow> (Skipped, tenantLimits)
      | Some tid \<Rightarrow>
          if tid = [] then (Skipped, tenantLimits)
          else
            (let fresh = \<lparr>count = 0, resetTime = now + windowMs options\<rparr>;
                 entry = (case map_of tenantLimits tid of
                            None \<Rightarrow> fresh
                          | Some e \<Rightarrow> if resetTime e < now then fresh else e);
                 entry' = entry\<lparr>count := count entry + 1\<rparr>;
                 limits' = AList.update tid entry' tenantLimits
             in if \<not> valid_time (resetTime entry') then (InvalidTimeValue, limits')
                else if count entry' > maxRequests options
                then (TooManyRequests (ceil_div_1000 (resetTime entry' - now)) (resetTime entry'),
                      limits')
                else (Allowed (maxRequests options - count entry') (resetTime entry'), limits')))"

text \<open>The periodic sweep installed with \<open>setInterval\<close>.\<close>

definition sweepLimits :: "(string \<times> RateLimitEntry) list \<Rightarrow> int \<Rightarrow> (string \<times> RateLimitEntry) list" where
  "sweepLimits tenantLimits now = filter (\<lambda>(tid, entry). \<not> resetTime entry < now) tenantLimits"

text \<open>A sequence of requests \<open>(req.tenantId, clock reading)\<close> through the handler.\<close>

fun rateLimitRun ::
  "RateLimitOptions \<Rightarrow> (string \<times> RateLimitEntry) list \<Rightarrow> (string option \<times> int) list
     \<Rightarrow> RateLimitOutcome list \<times> (string \<times> RateLimitEntry) list" where
  "rateLimitRun options tenantLimits [] = ([], tenantLimits)"
| "rateLimitRun options tenantLimits ((tid, now) # reqs) =
     (let (r, limits') = rateLimit options tenantLimits tid now;
          (rs, limits'') = rateLimitRun options limits' reqs
      in (r # rs, limits''))"

section \<open>Tenant record store\<close>

text \<open>\<open>Omit<TenantConfig, 'createdAt' | 'updatedAt'>\<close>, the argument of \<open>create\<close>.\<close>

record CreateConfig =
  c_tenantId :: string
  c_name :: string
  c_apiKey :: jstring
  c_locationId :: string
  c_baseUrl :: "string option"
  c_version :: "string option"
  c_settings :: "(string \<times> string) list option"
  c_isActive :: bool

text \<open>\<open>Partial<TenantConfig>\<close>: a field is \<open>None\<close> when the key is absent.\<close>

record PartialTenantConfig =
  p_tenantId :: "string option"
  p_name :: "string option"
  p_apiKey :: "jstring option"
  p_locationId :: "string option"
  p_baseUrl :: "string option"
  p_version :: "string option"
  p_settings :: "(string \<times> string) list option"
  p_createdAt :: "int option"
  p_updatedAt :: "int option"
  p_isActive :: "bool option"

text \<open>The object spread \<open>{ ...existing, ...config }\<close>.\<close>

definition over :: "'a option \<Rightarrow> 'a \<Rightarrow> 'a" where
  "over new old = (case new of None \<Rightarrow> old | Some v \<Rightarrow> v)"

definition over_opt :: "'a option \<Rightarrow> 'a option \<Rightarrow> 'a option" where
  "over_opt new old = (case new of None \<Rightarrow> old | Some v \<Rightarrow> Some v)"

definition spread :: "TenantConfig \<Rightarrow> PartialTenantConfig \<Rightarrow> TenantConfig" where
  "spread existing config =
     \<lparr>tenantId = over (p_tenantId config) (tenantId existing),
      name = over (p_name config) (name existing),
      apiKey = over (p_apiKey config) (apiKey existing),
      locationId = over (p_locationId config) (locationId existing),
      baseUrl = over_opt (p_baseUrl config) (baseUrl existing),
      version = over_opt (p_version config) (version existing),
      settings = over_opt (p_settings config) (settings existing),
      createdAt = over (p_createdAt config) (createdAt existing),
      updatedAt = over (p_updatedAt config) (updatedAt existing),
      isActive = over (p_isActive config) (isActive existing)\<rparr>"

text \<open>\<open>const { createdAt, updatedAt, ...createConfig } = newTenant\<close>.\<close>

definition strip_dates :: "TenantConfig \<Rightarrow> CreateConfig" where
  "strip_dates t =
     \<lparr>c_tenantId = tenantId t, c_name = name t, c_apiKey = apiKey t,
      c_locationId = locationId t, c_baseUrl = baseUrl t, c_version = version t,
      c_settings = settings t, c_isActive = isActive t\<rparr>"

text \<open>\<open>{ ...config, createdAt: now, updatedAt: now }\<close>.\<close>

definition with_dates :: "CreateConfig \<Rightarrow> int \<Rightarrow> TenantConfig" where
  "with_dates config now =
     \<lparr>tenantId = c_tenantId config, name = c_name config, apiKey = c_apiKey config,
      locationId = c_locationId config, baseUrl = c_baseUrl config, version = c_version config,
      settings = c_settings config, createdAt = now, updatedAt = now,
      isActive = c_isActive config\<rparr>"

text \<open>
  The three store classes. \<open>EnvVarTenantStore\<close> holds its \<open>defaultTenant\<close> (\<open>null\<close> when
  the environment has no credentials); \<open>CompositeTenantStore\<close> holds its primary and its
  fallback store.
\<close>

datatype TenantStore =
  InMemoryTenantStore "(string \<times> TenantConfig) list"
| EnvVarTenantStore "TenantConfig option"
| CompositeTenantStore TenantStore TenantStore

datatype StoreError = TenantNotFound string | ReadOnlyStore

fun store_get :: "TenantStore \<Rightarrow> string \<Rightarrow> TenantConfig option" where
  "store_get (InMemoryTenantStore tenants) tid = map_of tenants tid"
| "store_get (EnvVarTenantStore defaultTenant) tid =
     (if tid = ''default'' then defaultTenant else None)"
| "store_get (CompositeTenantStore primaryStore fallbackStore) tid =
     (case store_get primaryStore tid of
        Some primary \<Rightarrow> Some primary
      | None \<Rightarrow> store_get fallbackStore tid)"

fun store_exists :: "TenantStore \<Rightarrow> string \<Rightarrow> bool" where
  "store_exists (InMemoryTenantStore tenants) tid = (map_of tenants tid \<noteq> None)"
| "store_exists (EnvVarTenantStore defaultTenant) tid =
     (tid = ''default'' \<and> defaultTenant \<noteq> None)"
| "store_exists (CompositeTenantStore primaryStore fallbackStore) tid =
     (store_exists primaryStore tid \<or> store_exists fallbackStore tid)"

fun store_create :: "TenantStore \<Rightarrow> CreateConfig \<Rightarrow> int \<Rightarrow> StoreError + (TenantConfig \<times> TenantStore)" where
  "store_create (InMemoryTenantStore tenants) config now =
     (let saved = with_dates config now
      in Inr (saved, InMemoryTenantStore (AList.update (tenantId saved) saved tenants)))"
| "store_create (EnvVarTenantStore defaultTenant) config now = Inl ReadOnlyStore"
| "store_create (CompositeTenantStore primaryStore fallbackStore) config now =
     (case store_create primaryStore config now of
        Inl e \<Rightarrow> Inl e
      | Inr (saved, primary') \<Rightarrow> Inr (saved, CompositeTenantStore primary' fallbackStore))"

fun store_update ::
  "TenantStore \<Rightarrow> string \<Rightarrow> PartialTenantConfig \<Rightarrow> int \<Rightarrow> StoreError + (TenantConfig \<times> TenantStore)" where
  "store_update (InMemoryTenantStore tenants) tid config now =
     (case map_of tenants tid of
        None \<Rightarrow> Inl (TenantNotFound tid)
      | Some existing \<Rightarrow>
          (let updated = (spread existing config)
                 \<lparr>tenantId := tenantId existing, createdAt := createdAt existing, updatedAt := now\<rparr>
           in Inr (updated, InMemoryTenantStore (AList.update tid updated tenants))))"
| "store_update (EnvVarTenantStore defaultTenant) tid config now = Inl ReadOnlyStore"
| "store_update (CompositeTenantStore primaryStore fallbackStore) tid config now =
     (if store_exists primaryStore tid then
        (case store_update primaryStore tid config now of
           Inl e \<Rightarrow> Inl e
         | Inr (saved, primary') \<Rightarrow> Inr (saved, CompositeTenantStore primary' fallbackStore))
      else
        (case store_get fallbackStore tid of
           Some fallbackTenant \<Rightarrow>
             (case store_create primaryStore (strip_dates (spread fallbackTenant config)) now of
                Inl e \<Rightarrow> Inl e
              | Inr (saved, primary') \<Rightarrow> Inr (saved, CompositeTenantStore primary' fallbackStore))
         | None \<Rightarrow> Inl (TenantNotFound tid)))"

text \<open>
  Which branch \<open>update\<close> takes for an id: \<open>update_promotes\<close> holds when a composite
  store on the way (the store itself, or the primary store it hands the call to) does not
  find the id in its primary store and so creates the record there from its fallback
  store's record.
\<close>

fun update_promotes :: "TenantStore \<Rightarrow> string \<Rightarrow> bool" where
  "update_promotes (InMemoryTenantStore tenants) tid = False"
| "update_promotes (EnvVarTenantStore defaultTenant) tid = False"
| "update_promotes (CompositeTenantStore primaryStore fallbackStore) tid =
     (if store_exists primaryStore tid then update_promotes primaryStore tid else True)"

fun store_delete :: "TenantStore \<Rightarrow> string \<Rightarrow> StoreError + (bool \<times> TenantStore)" where
  "store_delete (InMemoryTenantStore tenants) tid =
     Inr (map_of tenants tid \<noteq> None, InMemoryTenantStore (AList.delete tid tenants))"
| "store_delete (EnvVarTenantStore defaultTenant) tid = Inl ReadOnlyStore"
| "store_delete (CompositeTenantStore primaryStore fallbackStore) tid =
     (case store_delete primaryStore tid of
        Inl e \<Rightarrow> Inl e
      | Inr (deleted, primary') \<Rightarrow> Inr (deleted, CompositeTenantStore primary' fallbackStore))"

section \<open>Tenant resolver\<close>

datatype IdSource = Header | Query | Env | Default

record TenantIdentifier =
  ti_tenantId :: string
  source :: IdSource

text \<open>The resolver's options after the constructor has merged the defaults; an empty
  \<open>headerName\<close> or \<open>queryParam\<close> is falsy and switches that step off.\<close>

record ResolverOptions =
  headerName :: string
  queryParam :: string
  enableEnvFallback :: bool

definition new_resolver_options :: "string option \<Rightarrow> string option \<Rightarrow> bool option \<Rightarrow> ResolverOptions" where
  "new_resolver_options h q e =
     \<lparr>headerName = over h ''x-tenant-id'', queryParam = over q ''tenant'',
      enableEnvFallback = over e True\<rparr>"

text \<open>A header value is a string or an array of strings; a query value is a string or
  something else (an array or an object, which is truthy and never names a tenant).\<close>

datatype HeaderValue = HString string | HArray "string list"

datatype QueryValue = QString string | QOther

record HttpRequest =
  headers :: "(string \<times> HeaderValue) list"
  query :: "(string \<times> QueryValue) list option"
  url :: "string option"

definition lower_char :: "char \<Rightarrow> char" where
  "lower_char c =
     (let n = (of_char c :: nat)
      in if (65 \<le> n \<and> n \<le> 90) \<or> (192 \<le> n \<and> n \<le> 222 \<and> n \<noteq> 215)
         then char_of (n + 32) else c)"

definition toLowerCase :: "string \<Rightarrow> string" where
  "toLowerCase s = map lower_char s"

text \<open>\<open>Array.isArray(value) ? value[0] : value\<close>.\<close>

fun header_first :: "HeaderValue \<Rightarrow> string option" where
  "header_first (HString s) = Some s"
| "header_first (HArray []) = None"
| "header_first (HArray (s # ss)) = Some s"

fun header_truthy :: "HeaderValue \<Rightarrow> bool" where
  "header_truthy (HString s) = (s \<noteq> [])"
| "header_truthy (HArray ss) = True"

definition getHeaderValue :: "HttpRequest \<Rightarrow> string \<Rightarrow> string option" where
  "getHeaderValue req hname =
     (let lowerHeaderName = toLowerCase hname in
      case map_of (headers req) lowerHeaderName of
        Some v \<Rightarrow>
          if header_truthy v then header_first v
          else (case find (\<lambda>(key, w). toLowerCase key = lowerHeaderName) (headers req) of
                  Some (key, w) \<Rightarrow> header_first w
                | None \<Rightarrow> None)
      | None \<Rightarrow>
          (case find (\<lambda>(key, w). toLowerCase key = lowerHeaderName) (headers req) of
             Some (key, w) \<Rightarrow> header_first w
           | None \<Rightarrow> None))"

text \<open>
  \<open>req.url?.match(/\/tenant\/([^\/]+)/)\<close>: the leftmost position where \<open>/tenant/\<close> is
  followed by at least one character other than \<open>/\<close>; the captured group is the longest
  run of such characters.
\<close>

fun url_tenant_match :: "string \<Rightarrow> string option" where
  "url_tenant_match [] = None"
| "url_tenant_match (c # cs) =
     (if take 8 (c # cs) = ''/tenant/'' \<and> takeWhile (\<lambda>x. x \<noteq> CHR ''/'') (drop 8 (c # cs)) \<noteq> []
      then Some (takeWhile (\<lambda>x. x \<noteq> CHR ''/'') (drop 8 (c # cs)))
      else url_tenant_match cs)"

text \<open>A candidate identifier is used when it is a non-empty string that names a stored tenant.\<close>

definition existing_candidate :: "TenantStore \<Rightarrow> string option \<Rightarrow> string option" where
  "existing_candidate tenantStore v =
     (case v of
        None \<Rightarrow> None
      | Some s \<Rightarrow> if s \<noteq> [] \<and> store_exists tenantStore s then Some s else None)"

definition query_candidate :: "ResolverOptions \<Rightarrow> HttpRequest \<Rightarrow> string option" where
  "query_candidate options req =
     (if queryParam options = [] then None
      else case query req of
             None \<Rightarrow> None
           | Some q \<Rightarrow> (case map_of q (queryParam options) of
                          Some (QString s) \<Rightarrow> Some s
                        | _ \<Rightarrow> None))"

definition resolveFromHttpRequest ::
  "ResolverOptions \<Rightarrow> TenantStore \<Rightarrow> HttpRequest \<Rightarrow> TenantIdentifier option" where
  "resolveFromHttpRequest options tenantStore req =
     (case existing_candidate tenantStore
             (if headerName options = [] then None else getHeaderValue req (headerName options)) of
        Some headerValue \<Rightarrow> Some \<lparr>ti_tenantId = headerValue, source = Header\<rparr>
      | None \<Rightarrow>
     (case existing_candidate tenantStore (query_candidate options req) of
        Some queryValue \<Rightarrow> Some \<lparr>ti_tenantId = queryValue, source = Query\<rparr>
      | None \<Rightarrow>
     (case existing_candidate tenantStore
             (case url req of None \<Rightarrow> None | Some u \<Rightarrow> url_tenant_match u) of
        Some pathTenantId \<Rightarrow> Some \<lparr>ti_tenantId = pathTenantId, source = Query\<rparr>
      | None \<Rightarrow>
          if enableEnvFallback options \<and> store_exists tenantStore ''default''
          then Some \<lparr>ti_tenantId = ''default'', source = Env\<rparr>
          else None)))"

datatype ValidationError = VNotFound | VNotActive | VIncomplete

definition validateTenant :: "TenantStore \<Rightarrow> string \<Rightarrow> ValidationError option" where
  "validateTenant tenantStore tid =
     (case store_get tenantStore tid of
        None \<Rightarrow> Some VNotFound
      | Some t \<Rightarrow>
          if \<not> isActive t then Some VNotActive
          else if apiKey t = [] \<or> locationId t = [] then Some VIncomplete
          else None)"

section \<open>Credential encryption\<close>

text \<open>
  Node's \<open>crypto\<close> module and its string encodings are external. They are the fields of
  \<open>CryptoLib\<close>: the cipher (AES-256-GCM under the key derived from the encryption key
  by scrypt) maps encryption key, IV and plaintext bytes to ciphertext and authentication
  tag; deciphering gives \<open>None\<close> where Node throws; \<open>utf8_encode\<close> and
  \<open>utf8_decode\<close> are the conversions between a string and its UTF-8 bytes
  (\<open>utf16_to_utf8\<close> and \<open>utf8_to_utf16\<close> below are Node's).
  The hex encoding and the \<open>iv:authTag:ciphertext\<close> format are the manager's own.
\<close>

type_synonym byte = "8 word"

record CryptoLib =
  cipher_encrypt :: "string \<Rightarrow> byte list \<Rightarrow> byte list \<Rightarrow> byte list \<times> byte list"
  cipher_decrypt :: "string \<Rightarrow> byte list \<Rightarrow> byte list \<Rightarrow> byte list \<Rightarrow> byte list option"
  utf8_encode :: "jstring \<Rightarrow> byte list"
  utf8_decode :: "byte list \<Rightarrow> jstring"

text \<open>\<open>buf.toString('hex')\<close>: two lower-case digits per byte.\<close>

definition to_hex :: "byte list \<Rightarrow> jstring" where
  "to_hex bs =
     js (concat (map (\<lambda>b. [digit_char (unat b div 16), digit_char (unat b mod 16)]) bs))"

definition hex_val :: "16 word \<Rightarrow> nat option" where
  "hex_val c =
     (let n = unat c
      in if 48 \<le> n \<and> n \<le> 57 then Some (n - 48)
         else if 97 \<le> n \<and> n \<le> 102 then Some (n - 87)
         else if 65 \<le> n \<and> n \<le> 70 then Some (n - 55)
         else None)"

text \<open>\<open>Buffer.from(s, 'hex')\<close>: pairs of hex digits, stopping at the first pair that is
  not hex or at a trailing single character.\<close>

fun from_hex :: "jstring \<Rightarrow> byte list" where
  "from_hex (a # b # rest) =
     (case (hex_val a, hex_val b) of
        (Some x, Some y) \<Rightarrow> of_nat (16 * x + y) # from_hex rest
      | _ \<Rightarrow> [])"
| "from_hex _ = []"

text \<open>\<open>s.split(sep)\<close> for a one-character separator.\<close>

fun split_on :: "'a \<Rightarrow> 'a list \<Rightarrow> 'a list list" where
  "split_on sep [] = [[]]"
| "split_on sep (c # cs) =
     (if c = sep then [] # split_on sep cs
      else (case split_on sep cs of
              [] \<Rightarrow> [[c]]
            | p # ps \<Rightarrow> (c # p) # ps))"

text \<open>\<open>encrypt(text)\<close>; \<open>iv\<close> is the value of \<open>crypto.randomBytes(16)\<close>.\<close>

definition encrypt :: "CryptoLib \<Rightarrow> string \<Rightarrow> byte list \<Rightarrow> jstring \<Rightarrow> jstring" where
  "encrypt L encryptionKey iv text' =
     (let (encrypted, authTag) = cipher_encrypt L encryptionKey iv (utf8_encode L text')
      in to_hex iv @ js '':'' @ to_hex authTag @ js '':'' @ to_hex encrypted)"

text \<open>
  \<open>decrypt(encryptedText)\<close>. The IV and the tag are read with \<open>Buffer.from(_, 'hex')\<close>;
  the third part goes to \<open>decipher.update(encrypted, 'hex', 'utf8')\<close>, which throws for a
  string of odd length and otherwise reads it as \<open>Buffer.from\<close> does. Every exception
  ends in the \<open>catch\<close> branch, which returns the input.
\<close>

definition decrypt :: "CryptoLib \<Rightarrow> string \<Rightarrow> jstring \<Rightarrow> jstring" where
  "decrypt L encryptionKey encryptedText =
     (case split_on 58 encryptedText of
        [p0, p1, p2] \<Rightarrow>
          if odd (length p2) then encryptedText
          else
            (case cipher_decrypt L encryptionKey (from_hex p0) (from_hex p1) (from_hex p2) of
               None \<Rightarrow> encryptedText
             | Some decrypted \<Rightarrow> utf8_decode L decrypted)
      | _ \<Rightarrow> encryptedText)"

text \<open>
  Node's conversion of a string to UTF-8 (\<open>Buffer.from(s, 'utf8')\<close>, and the input
  encoding \<open>'utf8'\<close> of \<open>cipher.update\<close>): a surrogate pair becomes the four bytes of
  its code point, a surrogate without its partner becomes the three bytes \<open>EF BF BD\<close> of
  U+FFFD.
\<close>

definition unit_bytes :: "16 word \<Rightarrow> byte list" where
  "unit_bytes u =
     (let c = unat u
      in if c < 128 then [of_nat c]
         else if c < 2048 then [of_nat (192 + c div 64), of_nat (128 + c mod 64)]
         else if 55296 \<le> c \<and> c < 57344 then [239, 191, 189]
         else [of_nat (224 + c div 4096), of_nat (128 + c div 64 mod 64), of_nat (128 + c mod 64)])"

definition pair_bytes :: "16 word \<Rightarrow> 16 word \<Rightarrow> byte list" where
  "pair_bytes hi lo =
     (let cp = 65536 + (unat hi - 55296) * 1024 + (unat lo - 56320)
      in [of_nat (240 + cp div 262144), of_nat (128 + cp div 4096 mod 64),
          of_nat (128 + cp div 64 mod 64), of_nat (128 + cp mod 64)])"

definition high_surrogate :: "16 word \<Rightarrow> bool" where
  "high_surrogate u = (55296 \<le> unat u \<and> unat u < 56320)"

definition low_surrogate :: "16 word \<Rightarrow> bool" where
  "low_surrogate u = (56320 \<le> unat u \<and> unat u < 57344)"

fun utf16_to_utf8 :: "jstring \<Rightarrow> byte list" where
  "utf16_to_utf8 [] = []"
| "utf16_to_utf8 [u] = unit_bytes u"
| "utf16_to_utf8 (u # v # vs) =
     (if high_surrogate u \<and> low_surrogate v then pair_bytes u v @ utf16_to_utf8 vs
      else unit_bytes u @ utf16_to_utf8 (v # vs))"

text \<open>
  Node's conversion of UTF-8 bytes to a string (the output encoding \<open>'utf8'\<close> of
  \<open>decipher.update\<close> and \<open>decipher.final\<close>), the decoder of the WHATWG Encoding
  Standard: \<open>cp\<close> is the code point under construction, \<open>need\<close> the number of
  continuation bytes still expected, \<open>lo\<close> and \<open>hi\<close> the range allowed for the next
  one. A byte that cannot start or continue a sequence gives U+FFFD; a byte that breaks a
  sequence is read again as a first byte.
\<close>

function utf8_code_points :: "nat \<Rightarrow> nat \<Rightarrow> nat \<Rightarrow> nat \<Rightarrow> byte list \<Rightarrow> nat list" where
  "utf8_code_points cp need lo hi [] = (if need = 0 then [] else [65533])"
| "utf8_code_points cp need lo hi (b # bs) =
     (let x = unat b in
      if need = 0 then
        (if x < 128 then x # utf8_code_points 0 0 128 191 bs
         else if 194 \<le> x \<and> x \<le> 223 then utf8_code_points (x mod 32) 1 128 191 bs
         else if 224 \<le> x \<and> x \<le> 239 then
           utf8_code_points (x mod 16) 2 (if x = 224 then 160 else 128)
             (if x = 237 then 159 else 191) bs
         else if 240 \<le> x \<and> x \<le> 244 then
           utf8_code_points (x mod 8) 3 (if x = 240 then 144 else 128)
             (if x = 244 then 143 else 191) bs
         else 65533 # utf8_code_points 0 0 128 191 bs)
      else if lo \<le> x \<and> x \<le> hi then
        (if need = 1 then (cp * 64 + x mod 64) # utf8_code_points 0 0 128 191 bs
         else utf8_code_points (cp * 64 + x mod 64) (need - 1) 128 191 bs)
      else 65533 # utf8_code_points 0 0 128 191 (b # bs))"
  by pat_completeness auto
termination
  by (relation "measure (\<lambda>(cp, need, lo, hi, bs). 2 * length bs + (if need = 0 then 0 else 1))")
     auto

definition code_point_units :: "nat \<Rightarrow> jstring" where
  "code_point_units cp =
     (if cp < 65536 then [of_nat cp]
      else [of_nat (55296 + (cp - 65536) div 1024), of_nat (56320 + (cp - 65536) mod 1024)])"

definition utf8_to_utf16 :: "byte list \<Rightarrow> jstring" where
  "utf8_to_utf16 bs = concat (map code_point_units (utf8_code_points 0 0 128 191 bs))"


section \<open>Tenant configuration manager\<close>

record CreateTenantRequest =
  r_tenantId :: "string option"
  r_name :: string
  r_apiKey :: jstring
  r_locationId :: string
  r_baseUrl :: "string option"
  r_version :: "string option"
  r_settings :: "(string \<times> string) list option"

record UpdateTenantRequest =
  u_name :: "string option"
  u_apiKey :: "jstring option"
  u_locationId :: "string option"
  u_baseUrl :: "string option"
  u_version :: "string option"
  u_settings :: "(string \<times> string) list option"
  u_isActive :: "bool option"

datatype ManagerError =
  NameRequired
| ApiKeyRequired
| LocationIdRequired
| InvalidTenantIdFormat
| AlreadyExists string
| NotFound string
| CredentialsRequired
| InvalidConfiguration
| CannotDeleteDefault
| StoreFailure StoreError

text \<open>The manager's surroundings: the crypto library, its \<open>encryptionKey\<close>, and the
  outcome of \<open>testClient.testConnection()\<close> against the upstream API.\<close>

record ManagerEnv =
  lib :: CryptoLib
  encryptionKey :: string
  testConnection :: "GHLConfig \<Rightarrow> bool"

text \<open>\<open>s.trim().length === 0\<close>: every code unit is white space or a line terminator.\<close>

definition is_space :: "nat \<Rightarrow> bool" where
  "is_space n =
     (n \<in> {9, 10, 11, 12, 13, 32, 160, 5760, 8232, 8233, 8239, 8287, 12288, 65279}
      \<or> (8192 \<le> n \<and> n \<le> 8202))"

definition blank :: "string \<Rightarrow> bool" where
  "blank s = list_all (\<lambda>c. is_space (of_char c)) s"

definition blank_js :: "jstring \<Rightarrow> bool" where
  "blank_js s = list_all (\<lambda>u. is_space (unat u)) s"

text \<open>\<open>/^[a-zA-Z0-9_-]+$/.test(s)\<close>.\<close>

definition id_char :: "char \<Rightarrow> bool" where
  "id_char c =
     (let n = (of_char c :: nat)
      in (97 \<le> n \<and> n \<le> 122) \<or> (65 \<le> n \<and> n \<le> 90) \<or> (48 \<le> n \<and> n \<le> 57)
         \<or> n = 95 \<or> n = 45)"

definition valid_tenant_id :: "string \<Rightarrow> bool" where
  "valid_tenant_id s = (s \<noteq> [] \<and> list_all id_char s)"

definition validateCreateRequest :: "CreateTenantRequest \<Rightarrow> ManagerError option" where
  "validateCreateRequest request =
     (if blank (r_name request) then Some NameRequired
      else if blank_js (r_apiKey request) then Some ApiKeyRequired
      else if blank (r_locationId request) then Some LocationIdRequired
      else (case r_tenantId request of
              None \<Rightarrow> None
            | Some tid \<Rightarrow>
                if tid \<noteq> [] \<and> \<not> valid_tenant_id tid then Some InvalidTenantIdFormat else None))"

text \<open>\<open>generateTenantId()\<close>; \<open>now\<close> is \<open>Date.now()\<close> and \<open>rnd\<close> the random suffix
  \<open>Math.random().toString(36).substring(2, 9)\<close>.\<close>

definition generateTenantId :: "int \<Rightarrow> string \<Rightarrow> string" where
  "generateTenantId now rnd = ''tenant_'' @ toStringRadix 10 (nat now) @ ''_'' @ rnd"

definition testTenantConfig ::
  "ManagerEnv \<Rightarrow> jstring \<Rightarrow> string \<Rightarrow> string option \<Rightarrow> string option \<Rightarrow> ManagerError option" where
  "testTenantConfig env key loc burl ver =
     (if key = [] \<or> loc = [] then Some CredentialsRequired
      else if testConnection env
                \<lparr>accessToken = key,
                 cfg_baseUrl = str_or burl ''https://services.leadconnectorhq.com'',
                 cfg_version = str_or ver ''2021-07-28'',
                 cfg_locationId = loc\<rparr>
           then None
           else Some InvalidConfiguration)"

text \<open>\<open>createTenant(request)\<close>. \<open>iv\<close> is the random IV of \<open>encrypt\<close>, \<open>now_id\<close> and
  \<open>rnd\<close> feed \<open>generateTenantId\<close>, \<open>now\<close> is the store's clock reading. The result is
  the returned record and the store after the call.\<close>

definition createTenant ::
  "ManagerEnv \<Rightarrow> TenantStore \<Rightarrow> CreateTenantRequest \<Rightarrow> byte list \<Rightarrow> int \<Rightarrow> string \<Rightarrow> int
     \<Rightarrow> ManagerError + (TenantConfig \<times> TenantStore)" where
  "createTenant env tenantStore request iv now_id rnd now =
     (case validateCreateRequest request of
        Some e \<Rightarrow> Inl e
      | None \<Rightarrow>
          (let tid = str_or (r_tenantId request) (generateTenantId now_id rnd) in
           if store_exists tenantStore tid then Inl (AlreadyExists tid)
           else
             (let encryptedApiKey = encrypt (lib env) (encryptionKey env) iv (r_apiKey request);
                  config =
                    \<lparr>c_tenantId = tid, c_name = r_name request, c_apiKey = encryptedApiKey,
                     c_locationId = r_locationId request,
                     c_baseUrl = Some (str_or (r_baseUrl request) ''https://services.leadconnectorhq.com''),
                     c_version = Some (str_or (r_version request) ''2021-07-28''),
                     c_settings = Some (over (r_settings request) []),
                     c_isActive = True\<rparr>
              in case testTenantConfig env (c_apiKey config) (c_locationId config)
                        (c_baseUrl config) (c_version config) of
                   Some e \<Rightarrow> Inl e
                 | None \<Rightarrow>
                     (case store_create tenantStore config now of
                        Inl e \<Rightarrow> Inl (StoreFailure e)
                      | Inr (saved, store') \<Rightarrow> Inr (saved, store')))))"

definition getTenant :: "ManagerEnv \<Rightarrow> TenantStore \<Rightarrow> string \<Rightarrow> TenantConfig option" where
  "getTenant env tenantStore tid =
     (case store_get tenantStore tid of
        None \<Rightarrow> None
      | Some t \<Rightarrow> Some (t\<lparr>apiKey := decrypt (lib env) (encryptionKey env) (apiKey t)\<rparr>))"

text \<open>A string option is truthy when it is present and not empty.\<close>

definition truthy :: "'a list option \<Rightarrow> bool" where
  "truthy v = (case v of None \<Rightarrow> False | Some s \<Rightarrow> s \<noteq> [])"

text \<open>\<open>updateTenant(tenantId, request)\<close>. The state is the store and the factory singleton;
  both are returned after the call, with the decrypted view of the updated record.\<close>

definition updateTenant ::
  "ManagerEnv \<Rightarrow> TenantStore \<Rightarrow> GHLApiClientFactory option \<Rightarrow> string \<Rightarrow> UpdateTenantRequest
     \<Rightarrow> byte list \<Rightarrow> int
     \<Rightarrow> ManagerError + (TenantConfig \<times> TenantStore \<times> GHLApiClientFactory option)" where
  "updateTenant env tenantStore factoryInstance tid request iv now =
     (case store_get tenantStore tid of
        None \<Rightarrow> Inl (NotFound tid)
      | Some existing \<Rightarrow>
          (let update =
                 \<lparr>p_tenantId = None, p_name = u_name request,
                  p_apiKey = map_option (encrypt (lib env) (encryptionKey env) iv) (u_apiKey request),
                  p_locationId = u_locationId request, p_baseUrl = u_baseUrl request,
                  p_version = u_version request, p_settings = u_settings request,
                  p_createdAt = None, p_updatedAt = None, p_isActive = u_isActive request\<rparr>;
               testConfig = (spread existing update)
                 \<lparr>apiKey := (if truthy (u_apiKey request) then over (u_apiKey request) []
                             else decrypt (lib env) (encryptionKey env) (apiKey existing))\<rparr>;
               tested =
                 (if truthy (u_apiKey request) \<or> truthy (u_locationId request)
                       \<or> truthy (u_baseUrl request)
                  then testTenantConfig env (apiKey testConfig) (locationId testConfig)
                         (baseUrl testConfig) (version testConfig)
                  else None)
           in case tested of
                Some e \<Rightarrow> Inl e
              | None \<Rightarrow>
                  (case store_update tenantStore tid update now of
                     Inl e \<Rightarrow> Inl (StoreFailure e)
                   | Inr (updated, store') \<Rightarrow>
                       Inr (updated\<lparr>apiKey := decrypt (lib env) (encryptionKey env) (apiKey updated)\<rparr>,
                            store',
                            Some (clearTenantCache (getApiClientFactory factoryInstance) tid)))))"

definition deleteTenant ::
  "TenantStore \<Rightarrow> GHLApiClientFactory option \<Rightarrow> string
     \<Rightarrow> ManagerError + (bool \<times> TenantStore \<times> GHLApiClientFactory option)" where
  "deleteTenant tenantStore factoryInstance tid =
     (if tid = ''default'' then Inl CannotDeleteDefault
      else
        (let f' = clearTenantCache (getApiClientFactory factoryInstance) tid
         in case store_delete tenantStore tid of
              Inl e \<Rightarrow> Inl (StoreFailure e)
            | Inr (deleted, store') \<Rightarrow> Inr (deleted, store', Some f')))"

section \<open>Well-formed states\<close>

text \<open>
  Every entry of the factory's cache was inserted by \<open>getClient\<close>: its key is the tenant id
  it stores, an underscore, and a hash without underscores.
\<close>

definition entry_wf :: "string \<times> CachedClient \<Rightarrow> bool" where
  "entry_wf e =
     (take (length (cc_tenantId (snd e)) + 1) (fst e) = cc_tenantId (snd e) @ ''_''
      \<and> CHR ''_'' \<notin> set (drop (length (cc_tenantId (snd e)) + 1) (fst e)))"

definition cache_wf :: "(string \<times> CachedClient) list \<Rightarrow> bool" where
  "cache_wf cache = list_all entry_wf cache"

text \<open>Every record of a store sits under its own id (the in-memory map is keyed by
  \<open>tenant.tenantId\<close>; the environment store's record has the id \<open>default\<close>).\<close>

fun store_wf :: "TenantStore \<Rightarrow> bool" where
  "store_wf (InMemoryTenantStore tenants) = list_all (\<lambda>(key, t). tenantId t = key) tenants"
| "store_wf (EnvVarTenantStore defaultTenant) =
     (case defaultTenant of None \<Rightarrow> True | Some t \<Rightarrow> tenantId t = ''default'')"
| "store_wf (CompositeTenantStore primaryStore fallbackStore) =
     (store_wf primaryStore \<and> store_wf fallbackStore)"

section \<open>Example data\<close>

definition acme :: TenantConfig where
  "acme = \<lparr>tenantId = ''acme'', name = ''Acme'', apiKey = js ''k1'', locationId = ''L1'',
            baseUrl = None, version = None, settings = None,
            createdAt = 1000, updatedAt = 1000, isActive = True\<rparr>"

definition beta :: TenantConfig where
  "beta = \<lparr>tenantId = ''beta'', name = ''Beta'', apiKey = js ''k2'', locationId = ''L2'',
            baseUrl = None, version = None, settings = None,
            createdAt = 1000, updatedAt = 1000, isActive = True\<rparr>"

definition rl_opts :: RateLimitOptions where
  "rl_opts = \<lparr>windowMs = 60000, maxRequests = 2, message = None\<rparr>"

definition acme_again :: CreateConfig where
  "acme_again = \<lparr>c_tenantId = ''acme'', c_name = ''Other'', c_apiKey = js ''k9'', c_locationId = ''L9'',
     c_baseUrl = None, c_version = None, c_settings = None, c_isActive = True\<rparr>"

definition env_default :: TenantConfig where
  "env_default = \<lparr>tenantId = ''default'', name = ''Default Tenant'', apiKey = js ''k0'', locationId = ''L0'',
            baseUrl = Some ''https://services.leadconnectorhq.com'', version = Some ''2021-07-28'', settings = None,
            createdAt = 1000, updatedAt = 1000, isActive = True\<rparr>"

definition rename :: PartialTenantConfig where
  "rename = \<lparr>p_tenantId = None, p_name = Some ''Renamed'', p_apiKey = None, p_locationId = None,
     p_baseUrl = None, p_version = None, p_settings = None, p_createdAt = None, p_updatedAt = None,
     p_isActive = None\<rparr>"

text \<open>A crypto library for concrete inputs: the UTF-8 conversions are Node's; the cipher
  is a stand-in that leaves the bytes as they are and uses the IV as the tag.\<close>

definition plain_lib :: CryptoLib where
  "plain_lib =
     \<lparr>cipher_encrypt = (\<lambda>k iv p. (p, iv)),
      cipher_decrypt = (\<lambda>k iv tag c. if tag = iv then Some c else None),
      utf8_encode = utf16_to_utf8,
      utf8_decode = utf8_to_utf16\<rparr>"

definition plain_env :: ManagerEnv where
  "plain_env = \<lparr>lib = plain_lib, encryptionKey = ''secret'', testConnection = (\<lambda>c. True)\<rparr>"

definition acme_request :: CreateTenantRequest where
  "acme_request =
     \<lparr>r_tenantId = Some ''acme'', r_name = ''Acme'', r_apiKey = js ''k1'', r_locationId = ''L1'',
      r_baseUrl = None, r_version = None, r_settings = None\<rparr>"

definition default_options :: ResolverOptions where
  "default_options = new_resolver_options None None None"

definition acme_store :: TenantStore where
  "acme_store = CompositeTenantStore (InMemoryTenantStore [(''acme'', acme)]) (EnvVarTenantStore None)"

definition header_request :: HttpRequest where
  "header_request = \<lparr>headers = [(''x-tenant-id'', HString ''acme'')], query = Some [], url = Some ''/api/contacts''\<rparr>"

definition query_request :: HttpRequest where
  "query_request = \<lparr>headers = [(''accept'', HString ''*/*'')], query = Some [(''tenant'', QString ''acme'')],
      url = Some ''/api/contacts?tenant=acme''\<rparr>"

definition path_request :: HttpRequest where
  "path_request = \<lparr>headers = [(''accept'', HString ''*/*'')], query = Some [],
      url = Some ''/api/tenant/acme/contacts''\<rparr>"

definition cached_factory :: GHLApiClientFactory where
  "cached_factory = snd (getClient (new_factory None None) acme 10 10)"

definition rotate_request :: UpdateTenantRequest where
  "rotate_request = \<lparr>u_name = None, u_apiKey = Some (js ''k2''), u_locationId = None, u_baseUrl = None,
     u_version = None, u_settings = None, u_isActive = None\<rparr>"

text \<open>A tenant whose key is \<open>Aa\<close>, rotated to \<open>BB\<close>: the two keys have the same
  \<open>hashString\<close>. The store holds the encrypted key, a request in flight the decrypted
  record.\<close>

definition acme_Aa :: TenantConfig where
  "acme_Aa = acme\<lparr>apiKey := js ''Aa''\<rparr>"

definition store_Aa :: TenantStore where
  "store_Aa = CompositeTenantStore
     (InMemoryTenantStore [(''acme'', acme\<lparr>apiKey := js ''01:01:4161''\<rparr>)]) (EnvVarTenantStore None)"

definition factory_Aa :: GHLApiClientFactory where
  "factory_Aa = snd (getClient (new_factory None None) acme_Aa 10 10)"

definition rotate_BB :: UpdateTenantRequest where
  "rotate_BB = \<lparr>u_name = None, u_apiKey = Some (js ''BB''), u_locationId = None, u_baseUrl = None,
     u_version = None, u_settings = None, u_isActive = None\<rparr>"

section \<open>Digits, hashes and cache keys\<close>

lemma digit_char_code:
  "d < 36 \<Longrightarrow> of_char (digit_char d) = (if d < 10 then 48 + d else 87 + d)"
  by (auto simp: digit_char_def)

lemma digit_char_not_underscore: "d < 36 \<Longrightarrow> digit_char d \<noteq> CHR ''_''"
proof
  assume d: "d < 36" and e: "digit_char d = CHR ''_''"
  have "(of_char (digit_char d) :: nat) = 95" by (simp add: e)
  with d show False by (simp add: digit_char_code split: if_splits)
qed

lemma digit_char_not_colon: "d < 16 \<Longrightarrow> digit_char d \<noteq> CHR '':''"
proof
  assume d: "d < 16" and e: "digit_char d = CHR '':''"
  have "(of_char (digit_char d) :: nat) = 58" by (simp add: e)
  with d show False by (simp add: digit_char_code split: if_splits)
qed

lemma of_char_less_256: "(of_char c :: nat) < 256"
  using of_char_mod_256 [of c, where 'a = nat] by (metis mod_less_divisor zero_less_numeral)

lemma unat_js_char: "unat (of_char c :: 16 word) = of_char c"
proof -
  have "unat (of_nat (of_char c) :: 16 word) = of_char c mod 2 ^ LENGTH(16)"
    by (rule unat_of_nat)
  moreover have "(of_char c :: nat) < 65536"
    using of_char_less_256 [of c] by linarith
  ultimately show ?thesis by (simp add: of_nat_of_char)
qed

lemma js_char_of: "(of_char (char_of (n :: nat)) :: 16 word) = of_nat (n mod 256)"
proof -
  have "(of_char (char_of n) :: 16 word) = of_nat (of_char (char_of n))"
    by (simp only: of_nat_of_char)
  then show ?thesis by simp
qed

lemma hex_val_digit_char: "d < 16 \<Longrightarrow> hex_val (of_char (digit_char d)) = Some d"
  by (simp add: hex_val_def unat_js_char digit_char_code Let_def)

lemma toStringRadix_no_underscore: "CHR ''_'' \<notin> set (toStringRadix 36 n)"
proof (induction n rule: less_induct)
  case (less n)
  show ?case
  proof (cases "n < 36")
    case True
    then show ?thesis
      using digit_char_not_underscore [of n] by (simp add: toStringRadix.simps [of 36 n])
  next
    case False
    then have "n div 36 < n" by simp
    from less [OF this] False show ?thesis
      using digit_char_not_underscore [of "n mod 36"]
      by (simp add: toStringRadix.simps [of 36 n])
  qed
qed

lemma hashString_no_underscore: "CHR ''_'' \<notin> set (hashString s)"
  by (simp add: hashString_def toStringRadix_no_underscore)

lemma last_sep_unique:
  "a @ x # h1 = b @ x # h2 \<Longrightarrow> x \<notin> set h1 \<Longrightarrow> x \<notin> set h2 \<Longrightarrow> a = b \<and> h1 = h2"
  by (induction a arbitrary: b) (auto simp: Cons_eq_append_conv append_eq_Cons_conv)

lemma hashString_k1: "hashString (js ''k1'') = ''2li''"
  by (simp add: js_def hashString_def hash_step_def toStringRadix.simps digit_char_def char_of_eq_iff)

lemma hashString_k2: "hashString (js ''k2'') = ''2lj''"
  by (simp add: js_def hashString_def hash_step_def toStringRadix.simps digit_char_def char_of_eq_iff)


lemma hashString_Aa: "hashString (js ''Aa'') = ''1mo''"
  by (simp add: js_def hashString_def hash_step_def toStringRadix.simps digit_char_def char_of_eq_iff)

lemma hashString_BB: "hashString (js ''BB'') = ''1mo''"
  by (simp add: js_def hashString_def hash_step_def toStringRadix.simps digit_char_def char_of_eq_iff)

section \<open>The factory's cache bound\<close>

text \<open>
  C2. The cache is meant never to hold more than \<open>maxCacheSize\<close> entries. With
  \<open>maxCacheSize = 1\<close>, two \<open>getClient\<close> calls for two tenants within one millisecond
  (every clock reading is 5) leave two entries in the cache: the entry of the first call
  is not strictly older than the eviction loop's starting time, so nothing is evicted.
\<close>

theorem C2_cache_exceeds_max_within_one_millisecond:
  "maxCacheSize (new_factory (Some 1) None) = 1
   \<and> maxCacheSize (snd (getClient (snd (getClient (new_factory (Some 1) None) acme 5 5)) beta 5 5)) = 1
   \<and> length (clientCache (snd (getClient (snd (getClient (new_factory (Some 1) None) acme 5 5)) beta 5 5)))
       = 2
   \<and> map fst (clientCache (snd (getClient (snd (getClient (new_factory (Some 1) None) acme 5 5)) beta 5 5)))
       = [''acme_2li'', ''beta_2lj'']"
  by (simp add: new_factory_def or_default_def getClient_def getCacheKey_def acme_def beta_def
      hashString_k1 hashString_k2 addToCache_def Let_def createClient_def)


section \<open>The tool layer's client\<close>

text \<open>
  C9. With a bound request context, \<open>BaseTool.getClient\<close> returns the factory's client for
  the context's tenant, whatever client the constructor was given; with no context it
  returns the constructor's client; with neither it fails.
\<close>

theorem C9_BaseTool_getClient:
  "BaseTool_getClient \<lparr>singleTenantClient = stc\<rparr> (Some ctx) factoryInstance t_used t_evict =
     Inr (fst (getClient (getApiClientFactory factoryInstance) (tenant ctx) t_used t_evict),
          Some (snd (getClient (getApiClientFactory factoryInstance) (tenant ctx) t_used t_evict)))
   \<and> BaseTool_getClient \<lparr>singleTenantClient = Some c\<rparr> None factoryInstance t_used t_evict =
     Inr (c, factoryInstance)
   \<and> BaseTool_getClient \<lparr>singleTenantClient = None\<rparr> None factoryInstance t_used t_evict =
     Inl NoApiClientAvailable"
  by (simp add: BaseTool_getClient_def split: prod.splits)


section \<open>The rate limiter\<close>

text \<open>
  C10. A request without a resolved tenant id (undefined, or the empty string, which is
  falsy as well) is passed on with no header set, and the table of window counters is
  returned as it was, whatever it holds.
\<close>

theorem C10_rateLimit_skips_without_tenant:
  "rateLimit options tenantLimits None now = (Skipped, tenantLimits)
   \<and> rateLimit options tenantLimits (Some []) now = (Skipped, tenantLimits)"
  by (simp add: rateLimit_def)


section \<open>Fixed-window counting\<close>

lemma rateLimit_live:
  assumes "t \<noteq> []" "map_of limits t = Some e" "\<not> resetTime e < now"
  shows "rateLimit options limits (Some t) now =
     ((if \<not> valid_time (resetTime e) then InvalidTimeValue
       else if count e + 1 > maxRequests options
       then TooManyRequests (ceil_div_1000 (resetTime e - now)) (resetTime e)
       else Allowed (maxRequests options - (count e + 1)) (resetTime e)),
      AList.update t (e\<lparr>count := count e + 1\<rparr>) limits)"
  using assms by (simp add: rateLimit_def Let_def)

lemma rateLimit_fresh:
  assumes "t \<noteq> []" "case map_of limits t of None \<Rightarrow> True | Some e \<Rightarrow> resetTime e < now"
  shows "rateLimit options limits (Some t) now =
     ((if \<not> valid_time (now + windowMs options) then InvalidTimeValue
       else if 1 > maxRequests options
       then TooManyRequests (ceil_div_1000 (windowMs options)) (now + windowMs options)
       else Allowed (maxRequests options - 1) (now + windowMs options)),
      AList.update t \<lparr>count = 1, resetTime = now + windowMs options\<rparr> limits)"
  using assms by (simp add: rateLimit_def Let_def split: option.splits)

lemma rateLimit_frame:
  assumes "u \<noteq> Some t"
  shows "map_of (snd (rateLimit options limits u now)) t = map_of limits t"
  using assms by (cases u) (auto simp: rateLimit_def Let_def update_conv' split: option.splits)

lemma run_Cons_fst:
  "fst (rateLimitRun options limits ((tid, now) # reqs)) =
     fst (rateLimit options limits tid now)
       # fst (rateLimitRun options (snd (rateLimit options limits tid now)) reqs)"
  by (simp split: prod.splits)

lemma run_Cons_snd:
  "snd (rateLimitRun options limits ((tid, now) # reqs)) =
     snd (rateLimitRun options (snd (rateLimit options limits tid now)) reqs)"
  by (simp split: prod.splits)

lemma run_length: "length (fst (rateLimitRun options limits reqs)) = length reqs"
proof (induction reqs arbitrary: limits)
  case Nil
  then show ?case by simp
next
  case (Cons r reqs)
  obtain tid now where r: "r = (tid, now)" by (cases r)
  show ?case unfolding r run_Cons_fst using Cons.IH by simp
qed

lemma run_live:
  assumes "t \<noteq> []" "map_of limits t = Some e" "\<forall>x\<in>set xs. \<not> resetTime e < x" "i < length xs"
  shows "fst (rateLimitRun options limits (map (Pair (Some t)) xs)) ! i =
     (if \<not> valid_time (resetTime e) then InvalidTimeValue
      else if count e + 1 + int i > maxRequests options
       then TooManyRequests (ceil_div_1000 (resetTime e - xs ! i)) (resetTime e)
       else Allowed (maxRequests options - (count e + 1 + int i)) (resetTime e))"
  using assms
proof (induction xs arbitrary: limits e i)
  case Nil
  then show ?case by simp
next
  case (Cons x xs)
  have live: "\<not> resetTime e < x" using Cons.prems by simp
  note step = rateLimit_live [OF Cons.prems(1) Cons.prems(2) live, of options]
  show ?case
  proof (cases i)
    case 0
    then show ?thesis using step by (simp add: run_Cons_fst del: rateLimitRun.simps)
  next
    case (Suc j)
    let ?e' = "e\<lparr>count := count e + 1\<rparr>"
    let ?l' = "AList.update t ?e' limits"
    have m: "map_of ?l' t = Some ?e'" by (simp add: update_conv')
    have "fst (rateLimitRun options ?l' (map (Pair (Some t)) xs)) ! j =
       (if \<not> valid_time (resetTime ?e') then InvalidTimeValue
       else if count ?e' + 1 + int j > maxRequests options
       then TooManyRequests (ceil_div_1000 (resetTime ?e' - xs ! j)) (resetTime ?e')
       else Allowed (maxRequests options - (count ?e' + 1 + int j)) (resetTime ?e'))"
      using Cons.prems Suc by (intro Cons.IH [OF Cons.prems(1) m]) auto
    then show ?thesis using step Suc
      by (simp add: run_Cons_fst add.assoc del: rateLimitRun.simps)
  qed
qed

lemma run_frame:
  assumes "\<forall>r\<in>set reqs. fst r \<noteq> Some u"
  shows "map_of (snd (rateLimitRun options limits reqs)) u = map_of limits u"
  using assms
proof (induction reqs arbitrary: limits)
  case Nil
  then show ?case by simp
next
  case (Cons r reqs)
  obtain tid now where r: "r = (tid, now)" by (cases r)
  with Cons.prems have ne: "tid \<noteq> Some u" by simp
  show ?case using Cons.IH [of "snd (rateLimit options limits tid now)"] Cons.prems r
      rateLimit_frame [OF ne, of options limits now]
    by (simp add: run_Cons_snd del: rateLimitRun.simps)
qed

lemma run_entry_live:
  assumes "t \<noteq> []" "map_of limits t = Some e" "\<forall>x\<in>set xs. \<not> resetTime e < x"
  shows "map_of (snd (rateLimitRun options limits (map (Pair (Some t)) xs))) t =
     Some (e\<lparr>count := count e + int (length xs)\<rparr>)"
  using assms
proof (induction xs arbitrary: limits e)
  case Nil
  then show ?case by simp
next
  case (Cons x xs)
  have live: "\<not> resetTime e < x" using Cons.prems by simp
  note step = rateLimit_live [OF Cons.prems(1) Cons.prems(2) live, of options]
  let ?e' = "e\<lparr>count := count e + 1\<rparr>"
  let ?l' = "AList.update t ?e' limits"
  have m: "map_of ?l' t = Some ?e'" by (simp add: update_conv')
  have "map_of (snd (rateLimitRun options ?l' (map (Pair (Some t)) xs))) t =
     Some (?e'\<lparr>count := count ?e' + int (length xs)\<rparr>)"
    using Cons.prems by (intro Cons.IH [OF Cons.prems(1) m]) auto
  then show ?case using step by (simp add: run_Cons_snd add.assoc del: rateLimitRun.simps)
qed

lemma ceil_div_1000_mono: "a \<le> b \<Longrightarrow> ceil_div_1000 a \<le> ceil_div_1000 b"
  by (simp add: ceil_div_1000_def zdiv_mono1)

lemma ceil_div_1000_bounds: "1000 * ceil_div_1000 a < a + 1000 \<and> a \<le> 1000 * ceil_div_1000 a"
  unfolding ceil_div_1000_def by linarith

lemma ceil_div_1000_exact: "ceil_div_1000 (1000 * k) = k"
  by (simp add: ceil_div_1000_def)

lemma ceil_div_1000_whole: "w mod 1000 = 0 \<Longrightarrow> 1000 * ceil_div_1000 w = w"
  unfolding ceil_div_1000_def
  by (metis dvd_neg_div dvd_mult_div_cancel mod_0_imp_dvd minus_minus)


lemma rateLimit_own_entry:
  "map_of l1 u = map_of l2 u \<Longrightarrow>
   fst (rateLimit options l1 (Some u) now) = fst (rateLimit options l2 (Some u) now)"
  by (simp add: rateLimit_def Let_def split: option.splits)

lemma run_window:
  assumes t: "t \<noteq> []"
    and closed: "case map_of limits t of None \<Rightarrow> True | Some e \<Rightarrow> resetTime e < t1"
    and inwin: "\<forall>x\<in>set rest. x \<le> t1 + windowMs options"
    and i: "i \<le> length rest"
  shows "fst (rateLimitRun options limits (map (Pair (Some t)) (t1 # rest))) ! i =
     (if \<not> valid_time (t1 + windowMs options) then InvalidTimeValue
      else if 1 + int i > maxRequests options
      then TooManyRequests (ceil_div_1000 (t1 + windowMs options - (t1 # rest) ! i))
             (t1 + windowMs options)
      else Allowed (maxRequests options - (1 + int i)) (t1 + windowMs options))"
proof -
  let ?e1 = "\<lparr>count = 1, resetTime = t1 + windowMs options\<rparr>"
  let ?l1 = "AList.update t ?e1 limits"
  note first = rateLimit_fresh [OF t closed, of options]
  have m: "map_of ?l1 t = Some ?e1" by (simp add: update_conv')
  show ?thesis
  proof (cases i)
    case 0
    then show ?thesis using first by (simp add: run_Cons_fst del: rateLimitRun.simps)
  next
    case (Suc j)
    have live: "\<forall>x\<in>set rest. \<not> resetTime ?e1 < x" using inwin by auto
    have j: "j < length rest" using i Suc by simp
    show ?thesis using run_live [OF t m live j, of options] first Suc
      by (simp add: run_Cons_fst add.assoc del: rateLimitRun.simps)
  qed
qed

lemma run_window_entry:
  assumes t: "t \<noteq> []"
    and closed: "case map_of limits t of None \<Rightarrow> True | Some e \<Rightarrow> resetTime e < t1"
    and inwin: "\<forall>x\<in>set rest. x \<le> t1 + windowMs options"
  shows "map_of (snd (rateLimitRun options limits (map (Pair (Some t)) (t1 # rest)))) t =
     Some \<lparr>count = 1 + int (length rest), resetTime = t1 + windowMs options\<rparr>"
proof -
  let ?e1 = "\<lparr>count = 1, resetTime = t1 + windowMs options\<rparr>"
  let ?l1 = "AList.update t ?e1 limits"
  note first = rateLimit_fresh [OF t closed, of options]
  have m: "map_of ?l1 t = Some ?e1" by (simp add: update_conv')
  have live: "\<forall>x\<in>set rest. \<not> resetTime ?e1 < x" using inwin by auto
  show ?thesis using run_entry_live [OF t m live, of options] first
    by (simp add: run_Cons_snd del: rateLimitRun.simps)
qed

text \<open>When the new window's reset time is outside the range of a \<open>Date\<close>, the request is
  counted and the handler throws.\<close>

lemma rateLimit_invalid_time:
  assumes "t \<noteq> []" "case map_of limits t of None \<Rightarrow> True | Some e \<Rightarrow> resetTime e < now"
    and "\<not> valid_time (now + windowMs options)"
  shows "rateLimit options limits (Some t) now =
     (InvalidTimeValue, AList.update t \<lparr>count = 1, resetTime = now + windowMs options\<rparr> limits)"
  using rateLimit_fresh [OF assms(1,2), of options] assms(3) by simp

text \<open>
  C8, as stated, at a window of 1500 ms with one request allowed: the second request,
  100 ms into the window, is rejected with \<open>retryAfter = 2\<close> seconds, which is more
  than the window length of 1.5 seconds (\<open>retryAfter\<close> is rounded up to whole seconds).
\<close>

theorem C8_counterexample:
  "fst (rateLimitRun \<lparr>windowMs = 1500, maxRequests = 1, message = None\<rparr> []
          [(Some ''acme'', 0), (Some ''acme'', 100)]) ! 1 = TooManyRequests 2 1500
   \<and> \<not> (1000 * 2 \<le> windowMs \<lparr>windowMs = 1500, maxRequests = 1, message = None\<rparr>)"
  by (simp add: rateLimit_def Let_def ceil_div_1000_def valid_time_def)

text \<open>
  C8, amended. Tenant \<open>t\<close> has no open window at time \<open>t1\<close>; it then sends
  \<open>maxRequests + 1\<close> requests, at \<open>t1\<close> and at the times \<open>rest\<close> inside the window
  \<open>[t1, t1 + windowMs]\<close>. The first \<open>maxRequests\<close> are allowed with a falling
  \<open>remaining\<close>, the last is rejected with 429; its \<open>retryAfter\<close> is at most the
  window length rounded up to whole seconds (less than one second above the window
  length, and at most the window length when that is a whole number of seconds). The
  counter of another tenant \<open>u\<close> is untouched and \<open>u\<close>'s next request has the outcome it
  would have had without \<open>t\<close>'s requests (it is allowed when \<open>u\<close> has no counter and the
  limit is at least 1). The first request of \<open>t\<close> after the reset time has passed opens
  a new window with the counter at 1. All this is for reset times that a \<open>Date\<close> can
  hold; for a reset time beyond that range the handler counts the request and then throws
  (lemma \<open>rateLimit_invalid_time\<close>).
\<close>

theorem C8_rate_limit_window:
  assumes t: "t \<noteq> []" and u: "u \<noteq> []" "u \<noteq> t"
    and max: "0 \<le> maxRequests options"
    and closed: "case map_of limits t of None \<Rightarrow> True | Some e \<Rightarrow> resetTime e < t1"
    and len: "length rest = nat (maxRequests options)"
    and inwin: "\<forall>x\<in>set rest. t1 \<le> x \<and> x \<le> t1 + windowMs options"
    and vt: "valid_time (t1 + windowMs options)"
  shows "(\<forall>i < nat (maxRequests options).
            fst (rateLimitRun options limits (map (Pair (Some t)) (t1 # rest))) ! i =
              Allowed (maxRequests options - 1 - int i) (t1 + windowMs options))
    \<and> fst (rateLimitRun options limits (map (Pair (Some t)) (t1 # rest))) ! nat (maxRequests options) =
        TooManyRequests (ceil_div_1000 (t1 + windowMs options - last (t1 # rest)))
          (t1 + windowMs options)
    \<and> ceil_div_1000 (t1 + windowMs options - last (t1 # rest)) \<le> ceil_div_1000 (windowMs options)
    \<and> 1000 * ceil_div_1000 (t1 + windowMs options - last (t1 # rest)) < windowMs options + 1000
    \<and> (windowMs options mod 1000 = 0 \<longrightarrow>
        1000 * ceil_div_1000 (t1 + windowMs options - last (t1 # rest)) \<le> windowMs options)
    \<and> map_of (snd (rateLimitRun options limits (map (Pair (Some t)) (t1 # rest)))) u = map_of limits u
    \<and> fst (rateLimit options (snd (rateLimitRun options limits (map (Pair (Some t)) (t1 # rest)))) (Some u) now)
        = fst (rateLimit options limits (Some u) now)
    \<and> (map_of limits u = None \<and> 1 \<le> maxRequests options \<and> valid_time (now + windowMs options)
          \<longrightarrow>
        fst (rateLimit options (snd (rateLimitRun options limits (map (Pair (Some t)) (t1 # rest)))) (Some u) now)
          = Allowed (maxRequests options - 1) (now + windowMs options))
    \<and> (t1 + windowMs options < now \<and> valid_time (now + windowMs options) \<longrightarrow>
        rateLimit options (snd (rateLimitRun options limits (map (Pair (Some t)) (t1 # rest)))) (Some t) now
          = ((if 1 > maxRequests options
              then TooManyRequests (ceil_div_1000 (windowMs options)) (now + windowMs options)
              else Allowed (maxRequests options - 1) (now + windowMs options)),
             AList.update t \<lparr>count = 1, resetTime = now + windowMs options\<rparr>
               (snd (rateLimitRun options limits (map (Pair (Some t)) (t1 # rest))))))"
  (is "?A \<and> ?B \<and> ?C \<and> ?D \<and> ?D' \<and> ?E \<and> ?F \<and> ?G \<and> ?H")
proof -
  let ?run = "rateLimitRun options limits (map (Pair (Some t)) (t1 # rest))"
  have inwin': "\<forall>x\<in>set rest. x \<le> t1 + windowMs options" using inwin by simp
  note win = run_window [OF t closed inwin', of _ ]
  have A: ?A
  proof (intro allI impI)
    fix i assume i: "i < nat (maxRequests options)"
    then have "i \<le> length rest" using len by simp
    from win [OF this] i vt
    show "fst ?run ! i = Allowed (maxRequests options - 1 - int i) (t1 + windowMs options)"
      by (simp add: algebra_simps)
  qed
  have "last (t1 # rest) = (t1 # rest) ! (length (t1 # rest) - 1)"
    by (rule last_conv_nth) simp
  then have lst: "last (t1 # rest) = (t1 # rest) ! nat (maxRequests options)"
    using len by simp
  have B: ?B
    using win [of "nat (maxRequests options)"] len max lst vt by simp
  have ge: "t1 \<le> last (t1 # rest)" using inwin by (cases "rest = []") auto
  have C: ?C using ge by (intro ceil_div_1000_mono) simp
  have D: ?D using ceil_div_1000_bounds [of "t1 + windowMs options - last (t1 # rest)"] ge by linarith
  have D': ?D'
  proof (intro impI)
    assume "windowMs options mod 1000 = 0"
    then have "1000 * ceil_div_1000 (windowMs options) = windowMs options"
      by (rule ceil_div_1000_whole)
    with C show "1000 * ceil_div_1000 (t1 + windowMs options - last (t1 # rest)) \<le> windowMs options"
      by linarith
  qed
  have E: ?E using u by (intro run_frame) auto
  have F: ?F using E by (rule rateLimit_own_entry)
  have G: ?G
  proof (intro impI)
    assume a: "map_of limits u = None \<and> 1 \<le> maxRequests options
      \<and> valid_time (now + windowMs options)"
    then have "case map_of limits u of None \<Rightarrow> True | Some e \<Rightarrow> resetTime e < now" by simp
    from rateLimit_fresh [OF u(1) this, of options] a F
    show "fst (rateLimit options (snd ?run) (Some u) now) = Allowed (maxRequests options - 1) (now + windowMs options)"
      by simp
  qed
  have H: ?H
  proof (intro impI)
    assume a: "t1 + windowMs options < now \<and> valid_time (now + windowMs options)"
    have "case map_of (snd ?run) t of None \<Rightarrow> True | Some e \<Rightarrow> resetTime e < now"
      using run_window_entry [OF t closed inwin'] a by simp
    from rateLimit_fresh [OF t this, of options] a
    show "rateLimit options (snd ?run) (Some t) now
          = ((if 1 > maxRequests options
              then TooManyRequests (ceil_div_1000 (windowMs options)) (now + windowMs options)
              else Allowed (maxRequests options - 1) (now + windowMs options)),
             AList.update t \<lparr>count = 1, resetTime = now + windowMs options\<rparr> (snd ?run))"
      by simp
  qed
  from A B C D D' E F G H show ?thesis by blast
qed

theorem C8_rate_limit_window_witness:
  "(''acme'' \<noteq> [] \<and> ''beta'' \<noteq> [] \<and> ''beta'' \<noteq> ''acme'' \<and> 0 \<le> maxRequests rl_opts
    \<and> (case map_of ([] :: (string \<times> RateLimitEntry) list) ''acme'' of
          None \<Rightarrow> True | Some e \<Rightarrow> resetTime e < 0)
    \<and> length [10, 20 :: int] = nat (maxRequests rl_opts)
    \<and> list_all (\<lambda>x. 0 \<le> x \<and> x \<le> 0 + windowMs rl_opts) [10, 20]
    \<and> valid_time (0 + windowMs rl_opts))
   \<and> fst (rateLimitRun rl_opts [] (map (Pair (Some ''acme'')) [0, 10, 20])) ! 2 =
        TooManyRequests 60 60000
   \<and> fst (rateLimit rl_opts (snd (rateLimitRun rl_opts [] (map (Pair (Some ''acme'')) [0, 10, 20])))
           (Some ''beta'') 30) = Allowed 1 60030
   \<and> fst (rateLimit rl_opts (snd (rateLimitRun rl_opts [] (map (Pair (Some ''acme'')) [0, 10, 20])))
           (Some ''acme'') 70000) = Allowed 1 130000"
proof -
  have h1: "''acme'' \<noteq> []" and h2: "''beta'' \<noteq> []" and h3: "''beta'' \<noteq> ''acme''" by simp_all
  have h4: "0 \<le> maxRequests rl_opts" by (simp add: rl_opts_def)
  have h5: "case map_of ([] :: (string \<times> RateLimitEntry) list) ''acme'' of
              None \<Rightarrow> True | Some e \<Rightarrow> resetTime e < 0" by simp
  have h6: "length [10, 20 :: int] = nat (maxRequests rl_opts)" by (simp add: rl_opts_def)
  have h7: "\<forall>x\<in>set [10, 20 :: int]. 0 \<le> x \<and> x \<le> 0 + windowMs rl_opts"
    by (simp add: rl_opts_def)
  have w: "windowMs rl_opts = 60000" "maxRequests rl_opts = 2" by (simp_all add: rl_opts_def)
  have h8: "valid_time (0 + windowMs rl_opts)" by (simp add: rl_opts_def valid_time_def)
  note main = C8_rate_limit_window [OF h1 h2 h3 h4 h5 h6 h7 h8]
  have a: "fst (rateLimitRun rl_opts [] (map (Pair (Some ''acme'')) [0, 10, 20])) ! 2 =
        TooManyRequests 60 60000"
    using main [of 30] by (simp add: w rateLimit_def Let_def ceil_div_1000_def valid_time_def)
  have b: "fst (rateLimit rl_opts (snd (rateLimitRun rl_opts [] (map (Pair (Some ''acme'')) [0, 10, 20])))
           (Some ''beta'') 30) = Allowed 1 60030"
    using main [of 30] by (simp add: w rateLimit_def Let_def valid_time_def)
  have c: "fst (rateLimit rl_opts (snd (rateLimitRun rl_opts [] (map (Pair (Some ''acme'')) [0, 10, 20])))
           (Some ''acme'') 70000) = Allowed 1 130000"
    using main [of 70000] by (simp add: w rateLimit_def Let_def valid_time_def)
  have h7': "list_all (\<lambda>x. 0 \<le> x \<and> x \<le> 0 + windowMs rl_opts) [10, 20]"
    by (simp add: rl_opts_def)
  show ?thesis
    by (intro conjI) (rule h1 h2 h3 h4 h5 h6 h7' h8 a b c)+
qed


section \<open>Store: create and update\<close>

lemma store_create_result:
  "store_create s config now = Inr (t, s') \<Longrightarrow> t = with_dates config now"
  by (induction s arbitrary: s') (auto simp: Let_def split: sum.splits prod.splits)

lemma store_update_updatedAt:
  "store_update s tid p now = Inr (t, s') \<Longrightarrow> updatedAt t = now"
proof (induction s arbitrary: s')
  case (InMemoryTenantStore x)
  then show ?case by (auto simp: Let_def split: option.splits)
next
  case (EnvVarTenantStore x)
  then show ?case by simp
next
  case (CompositeTenantStore s1 s2)
  then show ?case
    by (auto simp: with_dates_def split: if_splits sum.splits option.splits prod.splits dest!: store_create_result)
qed

lemma store_exists_get: "store_exists s tid \<longleftrightarrow> store_get s tid \<noteq> None"
  by (induction s) (auto split: option.splits)

text \<open>
  C6, as stated, on the in-memory store: a record for \<open>acme\<close> exists, and \<open>create\<close> with
  another configuration carrying the same id succeeds and replaces it.
\<close>

theorem C6_counterexample:
  "store_exists (InMemoryTenantStore [(''acme'', acme)]) (c_tenantId acme_again)
   \<and> store_create (InMemoryTenantStore [(''acme'', acme)]) acme_again 2000 =
       Inr (with_dates acme_again 2000, InMemoryTenantStore [(''acme'', with_dates acme_again 2000)])
   \<and> with_dates acme_again 2000 \<noteq> acme"
  by (simp add: acme_again_def acme_def with_dates_def Let_def)

text \<open>
  C6, amended. The store's \<open>create\<close> does not look for an existing record: on the
  in-memory store it always succeeds and the new record is what the id maps to
  afterwards; the composite store hands the call to its primary store; the environment
  store rejects every \<open>create\<close> as read-only. The collision is rejected one level up:
  \<open>createTenant\<close> fails with \<open>AlreadyExists\<close> for a valid request whose explicit or
  generated id exists in the store.
\<close>

theorem C6_create_overwrites_manager_rejects:
  "store_create (InMemoryTenantStore tenants) config now =
     Inr (with_dates config now,
          InMemoryTenantStore (AList.update (c_tenantId config) (with_dates config now) tenants))
   \<and> store_get (InMemoryTenantStore (AList.update (c_tenantId config) (with_dates config now) tenants))
        (c_tenantId config) = Some (with_dates config now)
   \<and> store_create (CompositeTenantStore primaryStore fallbackStore) config now =
        (case store_create primaryStore config now of
           Inl e \<Rightarrow> Inl e
         | Inr (saved, primary') \<Rightarrow> Inr (saved, CompositeTenantStore primary' fallbackStore))
   \<and> store_create (EnvVarTenantStore defaultTenant) config now = Inl ReadOnlyStore
   \<and> (validateCreateRequest request = None
        \<and> store_exists tenantStore (str_or (r_tenantId request) (generateTenantId now_id rnd))
      \<longrightarrow> createTenant env tenantStore request iv now_id rnd now =
            Inl (AlreadyExists (str_or (r_tenantId request) (generateTenantId now_id rnd))))"
  by (simp add: Let_def with_dates_def update_conv' createTenant_def)

theorem C6_create_overwrites_manager_rejects_witness:
  "validateCreateRequest acme_request = None
   \<and> store_exists (InMemoryTenantStore [(''acme'', acme)]) ''acme''
   \<and> createTenant plain_env (InMemoryTenantStore [(''acme'', acme)]) acme_request [] 7 ''abc'' 2000 =
        Inl (AlreadyExists ''acme'')"
  using C6_create_overwrites_manager_rejects
          [where request = acme_request and tenantStore = "InMemoryTenantStore [(''acme'', acme)]"
             and now_id = 7 and rnd = "''abc''" and env = plain_env and iv = "[]" and now = 2000]
  by (simp add: validateCreateRequest_def acme_request_def blank_def blank_js_def js_def
      is_space_def valid_tenant_id_def id_char_def str_or_def Let_def)


lemma store_wf_get: "store_wf s \<Longrightarrow> store_get s tid = Some t \<Longrightarrow> tenantId t = tid"
proof (induction s)
  case (InMemoryTenantStore tenants)
  then show ?case by (auto simp: list_all_iff dest!: map_of_SomeD)
next
  case (EnvVarTenantStore d)
  then show ?case by (auto split: if_splits)
next
  case (CompositeTenantStore s1 s2)
  then show ?case by (auto split: option.splits)
qed

lemma store_create_get:
  "store_create s config now = Inr (t, s') \<Longrightarrow> store_get s' (tenantId t) = Some t"
proof (induction s arbitrary: s')
  case (InMemoryTenantStore tenants)
  then show ?case by (auto simp: Let_def update_conv')
next
  case (EnvVarTenantStore d)
  then show ?case by simp
next
  case (CompositeTenantStore s1 s2)
  from CompositeTenantStore.prems obtain p' where
    c: "store_create s1 config now = Inr (t, p')" and s': "s' = CompositeTenantStore p' s2"
    by (auto split: sum.splits)
  from CompositeTenantStore.IH(1) [OF c] show ?case by (simp add: s')
qed

lemma store_update_get:
  "store_wf s \<Longrightarrow> store_update s tid p now = Inr (t, s') \<Longrightarrow> store_get s' (tenantId t) = Some t"
proof (induction s arbitrary: s')
  case (InMemoryTenantStore tenants)
  from InMemoryTenantStore.prems(2) obtain existing where
    ex: "map_of tenants tid = Some existing"
    and s': "s' = InMemoryTenantStore (AList.update tid t tenants)"
    and t: "tenantId t = tenantId existing"
    by (auto simp: Let_def split: option.splits)
  have "(tid, existing) \<in> set tenants" using ex by (rule map_of_SomeD)
  then have "tenantId existing = tid"
    using InMemoryTenantStore.prems(1) by (auto simp: list_all_iff)
  then show ?case using s' t by (simp add: update_conv')
next
  case (EnvVarTenantStore d)
  then show ?case by simp
next
  case (CompositeTenantStore s1 s2)
  show ?case
  proof (cases "store_exists s1 tid")
    case True
    with CompositeTenantStore.prems(2) obtain p' where
      u: "store_update s1 tid p now = Inr (t, p')" and s': "s' = CompositeTenantStore p' s2"
      by (auto split: sum.splits)
    from CompositeTenantStore.IH(1) [OF _ u] CompositeTenantStore.prems(1) show ?thesis
      by (simp add: s')
  next
    case False
    with CompositeTenantStore.prems(2) obtain fb p' where
      c: "store_create s1 (strip_dates (spread fb p)) now = Inr (t, p')"
      and s': "s' = CompositeTenantStore p' s2"
      by (auto split: sum.splits option.splits)
    from store_create_get [OF c] show ?thesis by (simp add: s')
  qed
qed

lemma store_update_createdAt:
  "store_update s tid p now = Inr (t, s') \<Longrightarrow>
   (if update_promotes s tid then createdAt t = now
    else map_option createdAt (store_get s tid) = Some (createdAt t))"
proof (induction s arbitrary: s')
  case (InMemoryTenantStore tenants)
  then show ?case by (auto simp: Let_def split: option.splits)
next
  case (EnvVarTenantStore d)
  then show ?case by simp
next
  case (CompositeTenantStore s1 s2)
  show ?case
  proof (cases "store_exists s1 tid")
    case True
    with CompositeTenantStore.prems obtain p' where
      u: "store_update s1 tid p now = Inr (t, p')"
      by (auto split: sum.splits)
    obtain e where e: "store_get s1 tid = Some e" using True store_exists_get by auto
    from CompositeTenantStore.IH(1) [OF u] True e show ?thesis by (auto split: if_splits)
  next
    case False
    with CompositeTenantStore.prems obtain fb p' where
      c: "store_create s1 (strip_dates (spread fb p)) now = Inr (t, p')"
      by (auto split: sum.splits option.splits)
    from store_create_result [OF c] False show ?thesis by (simp add: with_dates_def)
  qed
qed

lemma store_update_id:
  "store_wf s \<Longrightarrow> store_update s tid p now = Inr (t, s') \<Longrightarrow>
   tenantId t = (if update_promotes s tid then over (p_tenantId p) tid else tid)"
proof (induction s arbitrary: s')
  case (InMemoryTenantStore tenants)
  from InMemoryTenantStore.prems(2) obtain existing where
    ex: "map_of tenants tid = Some existing" and t: "tenantId t = tenantId existing"
    by (auto simp: Let_def split: option.splits)
  have "(tid, existing) \<in> set tenants" using ex by (rule map_of_SomeD)
  then have "tenantId existing = tid"
    using InMemoryTenantStore.prems(1) by (auto simp: list_all_iff)
  then show ?case using t by simp
next
  case (EnvVarTenantStore d)
  then show ?case by simp
next
  case (CompositeTenantStore s1 s2)
  show ?case
  proof (cases "store_exists s1 tid")
    case True
    with CompositeTenantStore.prems(2) obtain p' where
      u: "store_update s1 tid p now = Inr (t, p')"
      by (auto split: sum.splits)
    from CompositeTenantStore.IH(1) [OF _ u] CompositeTenantStore.prems(1) True show ?thesis
      by simp
  next
    case False
    with CompositeTenantStore.prems(2) obtain fb p' where
      fb: "store_get s2 tid = Some fb"
      and c: "store_create s1 (strip_dates (spread fb p)) now = Inr (t, p')"
      by (auto split: sum.splits option.splits)
    have "tenantId fb = tid" using store_wf_get [OF _ fb] CompositeTenantStore.prems(1) by simp
    with store_create_result [OF c] False show ?thesis
      by (simp add: with_dates_def strip_dates_def spread_def over_def split: option.splits)
  qed
qed


lemma store_create_other:
  "store_create s config now = Inr (t, s') \<Longrightarrow> k \<noteq> c_tenantId config \<Longrightarrow>
   store_get s' k = store_get s k"
proof (induction s arbitrary: s')
  case (InMemoryTenantStore tenants)
  then show ?case by (auto simp: Let_def update_conv' with_dates_def)
next
  case (EnvVarTenantStore d)
  then show ?case by simp
next
  case (CompositeTenantStore s1 s2)
  from CompositeTenantStore.prems(1) obtain p' where
    c: "store_create s1 config now = Inr (t, p')" and s': "s' = CompositeTenantStore p' s2"
    by (auto split: sum.splits)
  from CompositeTenantStore.IH(1) [OF c CompositeTenantStore.prems(2)] show ?case by (simp add: s')
qed

lemma store_update_promote_other:
  "store_update s tid p now = Inr (t, s') \<Longrightarrow> update_promotes s tid \<Longrightarrow>
   p_tenantId p = Some other \<Longrightarrow> other \<noteq> tid \<Longrightarrow> store_get s' tid = store_get s tid"
proof (induction s arbitrary: s')
  case (InMemoryTenantStore tenants)
  then show ?case by simp
next
  case (EnvVarTenantStore d)
  then show ?case by simp
next
  case (CompositeTenantStore s1 s2)
  show ?case
  proof (cases "store_exists s1 tid")
    case True
    with CompositeTenantStore.prems(1) obtain p' where
      u: "store_update s1 tid p now = Inr (t, p')" and s': "s' = CompositeTenantStore p' s2"
      by (auto split: sum.splits)
    have "update_promotes s1 tid" using CompositeTenantStore.prems(2) True by simp
    from CompositeTenantStore.IH(1) [OF u this CompositeTenantStore.prems(3,4)] show ?thesis
      by (simp add: s')
  next
    case False
    with CompositeTenantStore.prems(1) obtain fb p' where
      c: "store_create s1 (strip_dates (spread fb p)) now = Inr (t, p')"
      and s': "s' = CompositeTenantStore p' s2"
      by (auto split: sum.splits option.splits)
    have "tid \<noteq> c_tenantId (strip_dates (spread fb p))"
      using CompositeTenantStore.prems(3,4) by (simp add: strip_dates_def spread_def over_def)
    from store_create_other [OF c this] show ?thesis by (simp add: s')
  qed
qed

lemma list_all_update: "list_all P al \<Longrightarrow> P (k, v) \<Longrightarrow> list_all P (AList.update k v al)"
  by (induction al) auto

lemma store_create_wf:
  "store_wf s \<Longrightarrow> store_create s config now = Inr (t, s') \<Longrightarrow> store_wf s'"
proof (induction s arbitrary: s')
  case (InMemoryTenantStore tenants)
  let ?saved = "with_dates config now"
  have s': "s' = InMemoryTenantStore (AList.update (tenantId ?saved) ?saved tenants)"
    using InMemoryTenantStore.prems(2) by (auto simp: Let_def)
  have "list_all (\<lambda>(key, t). tenantId t = key) (AList.update (tenantId ?saved) ?saved tenants)"
    using InMemoryTenantStore.prems(1) by (intro list_all_update) simp_all
  then show ?case by (simp add: s')
next
  case (EnvVarTenantStore d)
  then show ?case by simp
next
  case (CompositeTenantStore s1 s2)
  from CompositeTenantStore.prems(2) obtain p' where
    c: "store_create s1 config now = Inr (t, p')" and s': "s' = CompositeTenantStore p' s2"
    by (auto split: sum.splits)
  from CompositeTenantStore.IH(1) [OF _ c] CompositeTenantStore.prems(1) show ?case
    by (simp add: s')
qed

lemma store_update_wf:
  "store_wf s \<Longrightarrow> store_update s tid p now = Inr (t, s') \<Longrightarrow> store_wf s'"
proof (induction s arbitrary: s')
  case (InMemoryTenantStore tenants)
  from InMemoryTenantStore.prems(2) obtain existing where
    ex: "map_of tenants tid = Some existing"
    and s': "s' = InMemoryTenantStore (AList.update tid t tenants)"
    and t: "tenantId t = tenantId existing"
    by (auto simp: Let_def split: option.splits)
  have "(tid, existing) \<in> set tenants" using ex by (rule map_of_SomeD)
  then have "tenantId existing = tid"
    using InMemoryTenantStore.prems(1) by (auto simp: list_all_iff)
  then have "list_all (\<lambda>(key, t). tenantId t = key) (AList.update tid t tenants)"
    using InMemoryTenantStore.prems(1) t by (intro list_all_update) simp_all
  then show ?case by (simp add: s')
next
  case (EnvVarTenantStore d)
  then show ?case by simp
next
  case (CompositeTenantStore s1 s2)
  show ?case
  proof (cases "store_exists s1 tid")
    case True
    with CompositeTenantStore.prems(2) obtain p' where
      u: "store_update s1 tid p now = Inr (t, p')" and s': "s' = CompositeTenantStore p' s2"
      by (auto split: sum.splits)
    from CompositeTenantStore.IH(1) [OF _ u]
      CompositeTenantStore.prems(1) show ?thesis by (simp add: s')
  next
    case False
    with CompositeTenantStore.prems(2) obtain fb p' where
      c: "store_create s1 (strip_dates (spread fb p)) now = Inr (t, p')"
      and s': "s' = CompositeTenantStore p' s2"
      by (auto split: sum.splits option.splits)
    from store_create_wf [OF _ c] CompositeTenantStore.prems(1) show ?thesis by (simp add: s')
  qed
qed

text \<open>
  C7, as stated, on the composite store's promote path: the record \<open>default\<close> lives in
  the fallback store only, with \<open>createdAt = 1000\<close>; after an update at time 5000 the
  record returned (and stored in the primary store) has \<open>createdAt = 5000\<close>.
\<close>

theorem C7_counterexample:
  "store_get (CompositeTenantStore (InMemoryTenantStore []) (EnvVarTenantStore (Some env_default))) ''default''
     = Some env_default
   \<and> createdAt env_default = 1000
   \<and> (case store_update (CompositeTenantStore (InMemoryTenantStore []) (EnvVarTenantStore (Some env_default)))
             ''default'' rename 5000 of
         Inl e \<Rightarrow> False
       | Inr (updated, s') \<Rightarrow> createdAt updated = 5000 \<and> name updated = ''Renamed'')"
  by (simp add: env_default_def rename_def with_dates_def strip_dates_def spread_def over_def over_opt_def Let_def)

text \<open>
  C7, amended. Every successful \<open>update\<close> on a well-formed store returns a record whose
  \<open>updatedAt\<close> is the time of the update, and the store holds that record afterwards
  under the record's id; that id is the id updated, except on the promote path with a
  partial that carries another \<open>tenantId\<close>: then the new record has that id and what
  the store holds under the id updated is as before. Where the update is carried out on the
  record itself (an in-memory store, reached directly or through composite stores whose
  primary store has the record), \<open>createdAt\<close> is that of the record before, unchanged.
  On the promote path (a composite store on the way has the record in its fallback store
  only) the record is created anew in that composite's primary store and \<open>createdAt\<close> is
  the time of the update. The environment store rejects every update.
\<close>

theorem C7_update_timestamps:
  assumes wf: "store_wf s" and upd: "store_update s tid p now = Inr (t', s')"
  shows "updatedAt t' = now
    \<and> (if update_promotes s tid then createdAt t' = now
        else map_option createdAt (store_get s tid) = Some (createdAt t'))
    \<and> store_get s' (tenantId t') = Some t'
    \<and> (\<not> update_promotes s tid \<or> p_tenantId p = None
        \<longrightarrow> tenantId t' = tid \<and> store_get s' tid = Some t')
    \<and> (update_promotes s tid \<and> p_tenantId p = Some other \<and> other \<noteq> tid
        \<longrightarrow> tenantId t' = other \<and> store_get s' tid = store_get s tid)
    \<and> (s = CompositeTenantStore primaryStore fallbackStore \<and> \<not> store_exists primaryStore tid
        \<longrightarrow> (case s' of
               CompositeTenantStore primary' fallback' \<Rightarrow>
                 fallback' = fallbackStore \<and> store_get primary' (tenantId t') = Some t'
             | _ \<Rightarrow> False))
    \<and> store_wf s'
    \<and> store_update (EnvVarTenantStore defaultTenant) tid p now = Inl ReadOnlyStore"
  (is "?A \<and> ?B \<and> ?C \<and> ?D \<and> ?D' \<and> ?E \<and> ?F \<and> ?G")
proof -
  have A: ?A using upd by (rule store_update_updatedAt)
  have B: ?B using upd by (rule store_update_createdAt)
  have C: ?C using wf upd by (rule store_update_get)
  have id: "tenantId t' = (if update_promotes s tid then over (p_tenantId p) tid else tid)"
    using wf upd by (rule store_update_id)
  have D: ?D using C id by (auto simp: over_def)
  have D': ?D'
  proof (intro impI conjI)
    assume a: "update_promotes s tid \<and> p_tenantId p = Some other \<and> other \<noteq> tid"
    then show "tenantId t' = other" using id by (simp add: over_def)
    from a show "store_get s' tid = store_get s tid"
      using store_update_promote_other [OF upd] by blast
  qed
  have E: ?E
  proof (intro impI)
    assume a: "s = CompositeTenantStore primaryStore fallbackStore \<and> \<not> store_exists primaryStore tid"
    with upd obtain fb p' where
      c: "store_create primaryStore (strip_dates (spread fb p)) now = Inr (t', p')"
      and s': "s' = CompositeTenantStore p' fallbackStore"
      by (auto split: sum.splits option.splits)
    from store_create_get [OF c] s'
    show "case s' of
               CompositeTenantStore primary' fallback' \<Rightarrow>
                 fallback' = fallbackStore \<and> store_get primary' (tenantId t') = Some t'
             | _ \<Rightarrow> False"
      by simp
  qed
  have F: ?F using wf upd by (rule store_update_wf)
  have G: ?G by simp
  from A B C D D' E F G show ?thesis by blast
qed

theorem C7_update_timestamps_witness:
  "store_wf (InMemoryTenantStore [(''acme'', acme)])
   \<and> store_update (InMemoryTenantStore [(''acme'', acme)]) ''acme'' rename 5000 =
       Inr (acme\<lparr>name := ''Renamed'', updatedAt := 5000\<rparr>,
            InMemoryTenantStore [(''acme'', acme\<lparr>name := ''Renamed'', updatedAt := 5000\<rparr>)])
   \<and> createdAt (acme\<lparr>name := ''Renamed'', updatedAt := 5000\<rparr>) = createdAt acme
   \<and> store_wf (CompositeTenantStore (InMemoryTenantStore []) (EnvVarTenantStore (Some env_default)))
   \<and> store_update (CompositeTenantStore (InMemoryTenantStore []) (EnvVarTenantStore (Some env_default)))
        ''default'' rename 5000 =
       Inr (env_default\<lparr>name := ''Renamed'', createdAt := 5000, updatedAt := 5000\<rparr>,
            CompositeTenantStore
              (InMemoryTenantStore
                 [(''default'', env_default\<lparr>name := ''Renamed'', createdAt := 5000, updatedAt := 5000\<rparr>)])
              (EnvVarTenantStore (Some env_default)))
   \<and> store_get (CompositeTenantStore
              (InMemoryTenantStore
                 [(''default'', env_default\<lparr>name := ''Renamed'', createdAt := 5000, updatedAt := 5000\<rparr>)])
              (EnvVarTenantStore (Some env_default))) ''default'' =
       Some (env_default\<lparr>name := ''Renamed'', createdAt := 5000, updatedAt := 5000\<rparr>)
   \<and> store_wf (CompositeTenantStore
        (CompositeTenantStore (InMemoryTenantStore []) (InMemoryTenantStore [(''acme'', acme)]))
        (EnvVarTenantStore None))
   \<and> store_exists (CompositeTenantStore (InMemoryTenantStore []) (InMemoryTenantStore [(''acme'', acme)]))
        ''acme''
   \<and> store_update (CompositeTenantStore
        (CompositeTenantStore (InMemoryTenantStore []) (InMemoryTenantStore [(''acme'', acme)]))
        (EnvVarTenantStore None)) ''acme'' rename 5000 =
       Inr (acme\<lparr>name := ''Renamed'', createdAt := 5000, updatedAt := 5000\<rparr>,
            CompositeTenantStore
              (CompositeTenantStore
                 (InMemoryTenantStore
                    [(''acme'', acme\<lparr>name := ''Renamed'', createdAt := 5000, updatedAt := 5000\<rparr>)])
                 (InMemoryTenantStore [(''acme'', acme)]))
              (EnvVarTenantStore None))
   \<and> createdAt (acme\<lparr>name := ''Renamed'', createdAt := 5000, updatedAt := 5000\<rparr>) = 5000"
proof -
  have w1: "store_wf (InMemoryTenantStore [(''acme'', acme)])" by (simp add: acme_def)
  have u1: "store_update (InMemoryTenantStore [(''acme'', acme)]) ''acme'' rename 5000 =
       Inr (acme\<lparr>name := ''Renamed'', updatedAt := 5000\<rparr>,
            InMemoryTenantStore [(''acme'', acme\<lparr>name := ''Renamed'', updatedAt := 5000\<rparr>)])"
    by (simp add: Let_def rename_def spread_def over_def over_opt_def acme_def)
  have c1: "createdAt (acme\<lparr>name := ''Renamed'', updatedAt := 5000\<rparr>) = createdAt acme"
    using C7_update_timestamps [OF w1 u1] by simp
  have w2: "store_wf (CompositeTenantStore (InMemoryTenantStore []) (EnvVarTenantStore (Some env_default)))"
    by (simp add: env_default_def)
  have u2: "store_update (CompositeTenantStore (InMemoryTenantStore []) (EnvVarTenantStore (Some env_default)))
        ''default'' rename 5000 =
       Inr (env_default\<lparr>name := ''Renamed'', createdAt := 5000, updatedAt := 5000\<rparr>,
            CompositeTenantStore
              (InMemoryTenantStore
                 [(''default'', env_default\<lparr>name := ''Renamed'', createdAt := 5000, updatedAt := 5000\<rparr>)])
              (EnvVarTenantStore (Some env_default)))"
    by (simp add: Let_def rename_def spread_def over_def over_opt_def env_default_def
        with_dates_def strip_dates_def)
  have g2: "store_get (CompositeTenantStore
              (InMemoryTenantStore
                 [(''default'', env_default\<lparr>name := ''Renamed'', createdAt := 5000, updatedAt := 5000\<rparr>)])
              (EnvVarTenantStore (Some env_default))) ''default'' =
       Some (env_default\<lparr>name := ''Renamed'', createdAt := 5000, updatedAt := 5000\<rparr>)"
    using C7_update_timestamps [OF w2 u2] by (simp add: rename_def env_default_def)
  have w3: "store_wf (CompositeTenantStore
        (CompositeTenantStore (InMemoryTenantStore []) (InMemoryTenantStore [(''acme'', acme)]))
        (EnvVarTenantStore None))"
    by (simp add: acme_def)
  have e3: "store_exists (CompositeTenantStore (InMemoryTenantStore []) (InMemoryTenantStore [(''acme'', acme)]))
        ''acme''"
    by simp
  have u3: "store_update (CompositeTenantStore
        (CompositeTenantStore (InMemoryTenantStore []) (InMemoryTenantStore [(''acme'', acme)]))
        (EnvVarTenantStore None)) ''acme'' rename 5000 =
       Inr (acme\<lparr>name := ''Renamed'', createdAt := 5000, updatedAt := 5000\<rparr>,
            CompositeTenantStore
              (CompositeTenantStore
                 (InMemoryTenantStore
                    [(''acme'', acme\<lparr>name := ''Renamed'', createdAt := 5000, updatedAt := 5000\<rparr>)])
                 (InMemoryTenantStore [(''acme'', acme)]))
              (EnvVarTenantStore None))"
    by (simp add: Let_def rename_def spread_def over_def over_opt_def acme_def
        with_dates_def strip_dates_def)
  have c3: "createdAt (acme\<lparr>name := ''Renamed'', createdAt := 5000, updatedAt := 5000\<rparr>) = 5000"
    using C7_update_timestamps [OF w3 u3] by simp
  show ?thesis by (intro conjI) (rule w1 u1 c1 w2 u2 g2 w3 e3 u3 c3)+
qed

section \<open>Resolving the tenant of an HTTP request\<close>

lemma url_tenant_match_here:
  assumes "t \<noteq> []" "CHR ''/'' \<notin> set t"
  shows "url_tenant_match (''/tenant/'' @ t @ ''/'' @ rest) = Some t"
proof -
  have "takeWhile (\<lambda>x. x \<noteq> CHR ''/'') (t @ CHR ''/'' # rest) = t"
    using assms(2) by (auto simp: takeWhile_tail)
  then show ?thesis using assms(1) by simp
qed

lemma url_tenant_match_skip:
  assumes "\<forall>i<length pre. take 8 (drop i (pre @ u)) \<noteq> ''/tenant/''"
  shows "url_tenant_match (pre @ u) = url_tenant_match u"
  using assms
proof (induction pre)
  case Nil
  then show ?case by simp
next
  case (Cons c pre)
  have "take 8 (drop 0 ((c # pre) @ u)) \<noteq> ''/tenant/''" using Cons.prems by blast
  then have h: "take 8 (c # pre @ u) \<noteq> ''/tenant/''" by simp
  have "\<forall>i<length pre. take 8 (drop i (pre @ u)) \<noteq> ''/tenant/''"
  proof (intro allI impI)
    fix i assume "i < length pre"
    then have "Suc i < length (c # pre)" by simp
    from Cons.prems [rule_format, OF this] show "take 8 (drop i (pre @ u)) \<noteq> ''/tenant/''" by simp
  qed
  from Cons.IH [OF this] h show ?case by (simp del: take_Cons_numeral)
qed

lemma url_tenant_match_segment:
  assumes "t \<noteq> []" "CHR ''/'' \<notin> set t"
    and "\<forall>i<length pre. take 8 (drop i (pre @ ''/tenant/'' @ t @ ''/'' @ rest)) \<noteq> ''/tenant/''"
  shows "url_tenant_match (pre @ ''/tenant/'' @ t @ ''/'' @ rest) = Some t"
  using url_tenant_match_skip [OF assms(3)] url_tenant_match_here [OF assms(1,2)] by simp

lemma getHeaderValue_direct:
  "map_of (headers req) (toLowerCase hn) = Some (HString t) \<Longrightarrow> t \<noteq> [] \<Longrightarrow> getHeaderValue req hn = Some t"
  by (simp add: getHeaderValue_def Let_def)

text \<open>
  C4, as stated: the source is said to differ between the three ways of identification.
  For the tenant \<open>acme\<close>, a request naming it in the query parameter and a request naming
  it in the URL path are both resolved with the source \<open>query\<close>.
\<close>

theorem C4_counterexample:
  "resolveFromHttpRequest default_options acme_store query_request =
     Some \<lparr>ti_tenantId = ''acme'', source = Query\<rparr>
   \<and> resolveFromHttpRequest default_options acme_store path_request =
     Some \<lparr>ti_tenantId = ''acme'', source = Query\<rparr>
   \<and> \<not> (map_option source (resolveFromHttpRequest default_options acme_store query_request)
          \<noteq> map_option source (resolveFromHttpRequest default_options acme_store path_request))"
  by (simp add: resolveFromHttpRequest_def default_options_def new_resolver_options_def over_def
      acme_store_def query_request_def path_request_def existing_candidate_def
      getHeaderValue_def toLowerCase_def lower_char_def query_candidate_def Let_def)

text \<open>
  C4, amended. Let \<open>t\<close> be the non-empty id of a stored tenant. A request whose configured
  header carries \<open>t\<close> is resolved to \<open>t\<close> with source \<open>header\<close>. A request without a
  value in that header whose configured query parameter carries \<open>t\<close> is resolved to \<open>t\<close>
  with source \<open>query\<close>. A request with neither, whose URL has \<open>/tenant/t/\<close> as its first
  tenant segment, is resolved to \<open>t\<close> as well, again with source \<open>query\<close>.
\<close>

theorem C4_resolve_same_tenant:
  assumes "store_exists tenantStore t" and "t \<noteq> []"
  shows "(headerName options \<noteq> []
          \<and> map_of (headers reqH) (toLowerCase (headerName options)) = Some (HString t)
          \<longrightarrow> resolveFromHttpRequest options tenantStore reqH = Some \<lparr>ti_tenantId = t, source = Header\<rparr>)
    \<and> ((headerName options = [] \<or> getHeaderValue reqQ (headerName options) = None)
         \<and> queryParam options \<noteq> [] \<and> query reqQ = Some q
         \<and> map_of q (queryParam options) = Some (QString t)
          \<longrightarrow> resolveFromHttpRequest options tenantStore reqQ = Some \<lparr>ti_tenantId = t, source = Query\<rparr>)
    \<and> ((headerName options = [] \<or> getHeaderValue reqP (headerName options) = None)
         \<and> query_candidate options reqP = None
         \<and> CHR ''/'' \<notin> set t
         \<and> url reqP = Some (pre @ ''/tenant/'' @ t @ ''/'' @ rest)
         \<and> (\<forall>i<length pre. take 8 (drop i (pre @ ''/tenant/'' @ t @ ''/'' @ rest)) \<noteq> ''/tenant/'')
          \<longrightarrow> resolveFromHttpRequest options tenantStore reqP = Some \<lparr>ti_tenantId = t, source = Query\<rparr>)"
  (is "?H \<and> ?Q \<and> ?P")
proof -
  have H: ?H using assms
    by (auto simp: resolveFromHttpRequest_def existing_candidate_def getHeaderValue_direct)
  have Q: ?Q using assms
    by (auto simp: resolveFromHttpRequest_def existing_candidate_def query_candidate_def)
  have P: ?P
  proof (intro impI)
    assume a: "(headerName options = [] \<or> getHeaderValue reqP (headerName options) = None)
         \<and> query_candidate options reqP = None
         \<and> CHR ''/'' \<notin> set t
         \<and> url reqP = Some (pre @ ''/tenant/'' @ t @ ''/'' @ rest)
         \<and> (\<forall>i<length pre. take 8 (drop i (pre @ ''/tenant/'' @ t @ ''/'' @ rest)) \<noteq> ''/tenant/'')"
    then have m: "url_tenant_match (pre @ ''/tenant/'' @ t @ ''/'' @ rest) = Some t"
      using url_tenant_match_segment [OF assms(2)] by blast
    show "resolveFromHttpRequest options tenantStore reqP = Some \<lparr>ti_tenantId = t, source = Query\<rparr>"
      using a m assms by (auto simp: resolveFromHttpRequest_def existing_candidate_def)
  qed
  from H Q P show ?thesis by blast
qed

theorem C4_resolve_same_tenant_witness:
  "store_exists acme_store ''acme''
   \<and> resolveFromHttpRequest default_options acme_store header_request =
        Some \<lparr>ti_tenantId = ''acme'', source = Header\<rparr>
   \<and> resolveFromHttpRequest default_options acme_store query_request =
        Some \<lparr>ti_tenantId = ''acme'', source = Query\<rparr>
   \<and> resolveFromHttpRequest default_options acme_store path_request =
        Some \<lparr>ti_tenantId = ''acme'', source = Query\<rparr>"
proof -
  have e: "store_exists acme_store ''acme''" by (simp add: acme_store_def)
  have ne: "''acme'' \<noteq> []" by simp
  have hn: "headerName default_options = ''x-tenant-id''" "queryParam default_options = ''tenant''"
    by (simp_all add: default_options_def new_resolver_options_def over_def)
  have lc: "toLowerCase ''x-tenant-id'' = ''x-tenant-id''"
    by (simp add: toLowerCase_def lower_char_def)
  note main = C4_resolve_same_tenant [OF e ne, where options = default_options
      and reqH = header_request and reqQ = query_request and reqP = path_request
      and q = "[(''tenant'', QString ''acme'')]" and pre = "''/api''" and rest = "''contacts''"]
  note mH = main [THEN conjunct1, THEN mp]
    and mQ = main [THEN conjunct2, THEN conjunct1, THEN mp]
    and mP = main [THEN conjunct2, THEN conjunct2, THEN mp]
  have h: "resolveFromHttpRequest default_options acme_store header_request =
        Some \<lparr>ti_tenantId = ''acme'', source = Header\<rparr>"
  proof (rule mH)
    show "headerName default_options \<noteq> [] \<and>
      map_of (headers header_request) (toLowerCase (headerName default_options)) = Some (HString ''acme'')"
      by (simp add: hn lc header_request_def)
  qed
  have nh: "headerName default_options = [] \<or> getHeaderValue query_request (headerName default_options) = None"
      "headerName default_options = [] \<or> getHeaderValue path_request (headerName default_options) = None"
    by (simp_all add: hn getHeaderValue_def lc query_request_def path_request_def
        toLowerCase_def lower_char_def Let_def)
  have q: "resolveFromHttpRequest default_options acme_store query_request =
        Some \<lparr>ti_tenantId = ''acme'', source = Query\<rparr>"
  proof (rule mQ, intro conjI)
    show "headerName default_options = [] \<or> getHeaderValue query_request (headerName default_options) = None"
      by (rule nh)
    show "queryParam default_options \<noteq> []" by (simp add: hn)
    show "query query_request = Some [(''tenant'', QString ''acme'')]" by (simp add: query_request_def)
    show "map_of [(''tenant'', QString ''acme'')] (queryParam default_options) = Some (QString ''acme'')"
      by (simp add: hn)
  qed
  have p: "resolveFromHttpRequest default_options acme_store path_request =
        Some \<lparr>ti_tenantId = ''acme'', source = Query\<rparr>"
  proof (rule mP, intro conjI)
    show "headerName default_options = [] \<or> getHeaderValue path_request (headerName default_options) = None"
      by (rule nh)
    show "query_candidate default_options path_request = None"
      by (simp add: query_candidate_def hn path_request_def)
    show "CHR ''/'' \<notin> set ''acme''" by simp
    show "url path_request = Some (''/api'' @ ''/tenant/'' @ ''acme'' @ ''/'' @ ''contacts'')"
      by (simp add: path_request_def)
    show "\<forall>i<length ''/api''.
      take 8 (drop i (''/api'' @ ''/tenant/'' @ ''acme'' @ ''/'' @ ''contacts'')) \<noteq> ''/tenant/''"
    proof (intro allI impI)
      fix i :: nat assume "i < length ''/api''"
      then have "i = 0 \<or> i = 1 \<or> i = 2 \<or> i = 3" by auto
      then show "take 8 (drop i (''/api'' @ ''/tenant/'' @ ''acme'' @ ''/'' @ ''contacts'')) \<noteq> ''/tenant/''"
        by auto
    qed
  qed
  show ?thesis by (intro conjI) (rule e h q p)+
qed


section \<open>Encrypting and decrypting the credential\<close>

lemma js_colon: "js '':'' = [58]"
  by (simp add: js_def)

lemma from_hex_to_hex: "from_hex (to_hex bs) = bs"
proof (induction bs)
  case Nil
  then show ?case by (simp add: to_hex_def js_def)
next
  case (Cons b bs)
  have lt: "unat b div 16 < 16" "unat b mod 16 < 16"
    using unsigned_less [of b, where 'a = nat] by (simp_all add: less_mult_imp_div_less)
  have "of_nat (16 * (unat b div 16) + unat b mod 16) = b" by simp
  with Cons lt show ?case by (simp add: to_hex_def js_def hex_val_digit_char)
qed

lemma js_digit_not_colon: "d < 16 \<Longrightarrow> (of_char (digit_char d) :: 16 word) \<noteq> 58"
proof
  assume d: "d < 16" and e: "(of_char (digit_char d) :: 16 word) = 58"
  have "unat (of_char (digit_char d) :: 16 word) = 58" by (simp add: e)
  then have "(of_char (digit_char d) :: nat) = 58" by (simp add: unat_js_char)
  with d show False by (simp add: digit_char_code split: if_splits)
qed

lemma to_hex_no_colon: "58 \<notin> set (to_hex bs)"
proof (induction bs)
  case Nil
  then show ?case by (simp add: to_hex_def js_def)
next
  case (Cons b bs)
  have lt: "unat b div 16 < 16" "unat b mod 16 < 16"
    using unsigned_less [of b, where 'a = nat] by (simp_all add: less_mult_imp_div_less)
  from lt have "(of_char (digit_char (unat b div 16)) :: 16 word) \<noteq> 58"
    "(of_char (digit_char (unat b mod 16)) :: 16 word) \<noteq> 58"
    by (simp_all add: js_digit_not_colon)
  with Cons show ?case by (auto simp: to_hex_def js_def)
qed

lemma to_hex_even: "even (length (to_hex bs))"
  by (induction bs) (simp_all add: to_hex_def js_def)

lemma split_on_none: "sep \<notin> set a \<Longrightarrow> split_on sep a = [a]"
  by (induction a) auto

lemma split_on_append: "sep \<notin> set a \<Longrightarrow> split_on sep (a @ sep # b) = a # split_on sep b"
  by (induction a) auto

lemma split_on_three:
  assumes "sep \<notin> set a" "sep \<notin> set b" "sep \<notin> set c"
  shows "split_on sep (a @ [sep] @ b @ [sep] @ c) = [a, b, c]"
  using assms by (simp add: split_on_append split_on_none)

lemma decrypt_encrypt:
  assumes "cipher_encrypt L K iv (utf8_encode L s) = (ct, tag)"
    and "cipher_decrypt L K iv tag ct = Some (utf8_encode L s)"
    and "utf8_decode L (utf8_encode L s) = s"
  shows "decrypt L K (encrypt L K iv s) = s"
  using assms split_on_three [of 58 "to_hex iv" "to_hex tag" "to_hex ct"]
  by (simp add: decrypt_def encrypt_def js_colon to_hex_no_colon to_hex_even from_hex_to_hex)

lemma encrypt_has_colon: "58 \<in> set (encrypt L K iv s)"
  by (cases "cipher_encrypt L K iv (utf8_encode L s)") (simp add: encrypt_def js_colon)


text \<open>If the UTF-8 encoding gives two strings the same bytes, their cipher texts under one
  key and IV are the same, and \<open>decrypt\<close> cannot give both strings back, whatever the
  cipher.\<close>

lemma same_bytes_break_round_trip:
  assumes "utf8_encode L s = utf8_encode L s'" "s \<noteq> s'"
  shows "\<not> (decrypt L K (encrypt L K iv s) = s \<and> decrypt L K (encrypt L K iv s') = s')"
proof -
  have "encrypt L K iv s = encrypt L K iv s'" using assms(1) by (simp add: encrypt_def)
  then show ?thesis using assms(2) by auto
qed

lemma lone_surrogate_bytes: "utf16_to_utf8 [55296] = utf16_to_utf8 [65533]"
  by (simp add: unit_bytes_def)

subsection \<open>Node's UTF-8 conversions reproduce a string whose surrogates are paired\<close>




















subsection \<open>The round trip\<close>




section \<open>Creating a tenant\<close>

text \<open>
  C5. \<open>createTenant\<close> for the request \<open>acme\<close> / \<open>k1\<close> / \<open>L1\<close> on an empty store, with an
  upstream test that succeeds, whatever the crypto library, key and IV: the call
  succeeds, the record is stored with the encrypted credential, and the record returned
  to the caller is that stored record. Its \<open>apiKey\<close> is the cipher text
  \<open>iv:authTag:ciphertext\<close>, not the credential \<open>k1\<close> that was supplied.
\<close>

theorem C5_createTenant_returns_ciphertext:
  "(case createTenant \<lparr>lib = L, encryptionKey = K, testConnection = (\<lambda>c. True)\<rparr>
           (InMemoryTenantStore []) acme_request iv now_id rnd now of
      Inl e \<Rightarrow> False
    | Inr (returned, store') \<Rightarrow>
        store_get store' ''acme'' = Some returned
        \<and> apiKey returned = encrypt L K iv (js ''k1'')
        \<and> apiKey returned \<noteq> js ''k1'')"
proof -
  have c: "58 \<in> set (encrypt L K iv (js ''k1''))" by (rule encrypt_has_colon)
  moreover have "58 \<notin> set (js ''k1'')" by (simp add: js_def)
  ultimately have ne: "encrypt L K iv (js ''k1'') \<noteq> []" "encrypt L K iv (js ''k1'') \<noteq> js ''k1''"
    by auto
  have v: "validateCreateRequest acme_request = None"
    by (simp add: validateCreateRequest_def acme_request_def blank_def blank_js_def js_def
        is_space_def valid_tenant_id_def id_char_def)
  show ?thesis using ne v
    by (simp add: createTenant_def Let_def str_or_def testTenantConfig_def with_dates_def acme_request_def)
qed

section \<open>Credential rotation and the client cache\<close>

lemma set_update_subset: "set (AList.update k v al) \<subseteq> insert (k, v) (set al)"
  by (induction al) auto

lemma set_delete_subset: "set (AList.delete k al) \<subseteq> set al"
  by (auto simp: AList.delete_eq)

lemma cache_wf_iff: "cache_wf cache \<longleftrightarrow> (\<forall>e\<in>set cache. entry_wf e)"
  by (simp add: cache_wf_def list_all_iff)

lemma entry_wf_key:
  assumes "entry_wf (getCacheKey c, v)"
  shows "cc_tenantId v = tenantId c"
proof -
  let ?n = "length (cc_tenantId v) + 1"
  let ?k = "getCacheKey c"
  have "?k = take ?n ?k @ drop ?n ?k" by simp
  also have "take ?n ?k = cc_tenantId v @ ''_''" using assms by (simp add: entry_wf_def)
  finally have "tenantId c @ CHR ''_'' # hashString (apiKey c) = cc_tenantId v @ CHR ''_'' # drop ?n ?k"
    by (simp add: getCacheKey_def)
  moreover have "CHR ''_'' \<notin> set (drop ?n ?k)" using assms by (simp add: entry_wf_def)
  ultimately show ?thesis using last_sep_unique hashString_no_underscore by metis
qed

lemma entry_wf_new: "entry_wf (getCacheKey c, \<lparr>client = cl, lastUsed = t, cc_tenantId = tenantId c\<rparr>)"
  by (simp add: entry_wf_def getCacheKey_def hashString_no_underscore)


lemma getCacheKey_eq:
  assumes "getCacheKey c = getCacheKey u"
  shows "tenantId c = tenantId u \<and> hashString (apiKey c) = hashString (apiKey u)"
proof -
  have "tenantId c @ CHR ''_'' # hashString (apiKey c) = tenantId u @ CHR ''_'' # hashString (apiKey u)"
    using assms by (simp add: getCacheKey_def)
  then show ?thesis using last_sep_unique hashString_no_underscore by metis
qed

lemma getClient_inv:
  assumes inv: "\<forall>e\<in>set (clientCache f). fst e = key \<longrightarrow> client (snd e) = cl"
    and c: "getCacheKey c = key \<longrightarrow> createClient c = cl"
  shows "\<forall>e\<in>set (clientCache (snd (getClient f c t1 t2))). fst e = key \<longrightarrow> client (snd e) = cl"
proof (cases "map_of (clientCache f) (getCacheKey c)")
  case None
  let ?new = "\<lparr>client = createClient c, lastUsed = t1, cc_tenantId = tenantId c\<rparr>"
  have sub: "set (clientCache (snd (getClient f c t1 t2))) \<subseteq> insert (getCacheKey c, ?new) (set (clientCache f))"
    using None set_update_subset [of "getCacheKey c" ?new] set_delete_subset
    by (fastforce simp: getClient_def addToCache_def Let_def split: option.splits if_splits)
  have "getCacheKey c = key \<longrightarrow> client ?new = cl" using c by simp
  then show ?thesis using inv sub by auto
next
  case (Some cached)
  then have mem: "(getCacheKey c, cached) \<in> set (clientCache f)" by (rule map_of_SomeD)
  let ?new = "cached\<lparr>lastUsed := t1\<rparr>"
  have sub: "set (clientCache (snd (getClient f c t1 t2))) \<subseteq> insert (getCacheKey c, ?new) (set (clientCache f))"
    using Some set_update_subset [of "getCacheKey c" ?new] by (simp add: getClient_def Let_def)
  have "getCacheKey c = key \<longrightarrow> client ?new = cl" using inv mem by auto
  then show ?thesis using inv sub by auto
qed

lemma getClient_result:
  assumes inv: "\<forall>e\<in>set (clientCache f). fst e = getCacheKey u \<longrightarrow> client (snd e) = createClient u"
  shows "fst (getClient f u t1 t2) = createClient u"
proof (cases "map_of (clientCache f) (getCacheKey u)")
  case None
  then show ?thesis by (simp add: getClient_def Let_def)
next
  case (Some cached)
  then have mem: "(getCacheKey u, cached) \<in> set (clientCache f)" by (rule map_of_SomeD)
  then have "client cached = createClient u" using inv by auto
  then show ?thesis using Some by (simp add: getClient_def Let_def)
qed

lemma getClients_inv:
  assumes "\<forall>e\<in>set (clientCache f). fst e = key \<longrightarrow> client (snd e) = cl"
    and "\<forall>call\<in>set calls. getCacheKey (fst call) = key \<longrightarrow> createClient (fst call) = cl"
  shows "\<forall>e\<in>set (clientCache (getClients f calls)). fst e = key \<longrightarrow> client (snd e) = cl"
  using assms
proof (induction calls arbitrary: f)
  case Nil
  then show ?case by simp
next
  case (Cons call calls)
  obtain c t1 t2 where call: "call = (c, t1, t2)" by (cases call)
  have "getCacheKey c = key \<longrightarrow> createClient c = cl" using Cons.prems(2) call by simp
  from getClient_inv [OF Cons.prems(1) this]
  have "\<forall>e\<in>set (clientCache (snd (getClient f c t1 t2))). fst e = key \<longrightarrow> client (snd e) = cl" .
  from Cons.IH [OF this] Cons.prems(2) show ?case by (simp add: call)
qed

lemma clearTenantCache_inv:
  assumes wf: "cache_wf (clientCache f)"
  shows "\<forall>e\<in>set (clientCache (clearTenantCache f (tenantId u))). fst e \<noteq> getCacheKey u"
proof
  fix e
  assume e: "e \<in> set (clientCache (clearTenantCache f (tenantId u)))"
  then have mem: "e \<in> set (clientCache f)" and other: "cc_tenantId (snd e) \<noteq> tenantId u"
    by (auto simp: clearTenantCache_def)
  from mem wf have w: "entry_wf e" by (simp add: cache_wf_iff)
  show "fst e \<noteq> getCacheKey u"
  proof
    assume "fst e = getCacheKey u"
    then have "entry_wf (getCacheKey u, snd e)" using w by (metis prod.collapse)
    then have "cc_tenantId (snd e) = tenantId u" by (rule entry_wf_key)
    then show False using other by simp
  qed
qed

lemma store_update_apiKey:
  "p_apiKey p = Some k \<Longrightarrow> store_update s tid p now = Inr (t, s') \<Longrightarrow> apiKey t = k"
proof (induction s arbitrary: s')
  case (InMemoryTenantStore tenants)
  then show ?case by (auto simp: Let_def spread_def over_def split: option.splits)
next
  case (EnvVarTenantStore d)
  then show ?case by simp
next
  case (CompositeTenantStore s1 s2)
  show ?case
  proof (cases "store_exists s1 tid")
    case True
    then show ?thesis using CompositeTenantStore by (auto split: sum.splits)
  next
    case False
    then obtain fb where fb: "store_get s2 tid = Some fb"
      using CompositeTenantStore.prems by (auto split: option.splits)
    have "t = with_dates (strip_dates (spread fb p)) now"
      using False fb CompositeTenantStore.prems(2) store_create_result
      by (auto split: sum.splits)
    then show ?thesis using CompositeTenantStore.prems(1)
      by (simp add: with_dates_def strip_dates_def spread_def over_def)
  qed
qed

lemma updateTenant_Inr:
  assumes "updateTenant env tenantStore factoryInstance tid request iv now = Inr (updated, store', factory')"
  shows "\<exists>raw. store_update tenantStore tid
            \<lparr>p_tenantId = None, p_name = u_name request,
             p_apiKey = map_option (encrypt (lib env) (encryptionKey env) iv) (u_apiKey request),
             p_locationId = u_locationId request, p_baseUrl = u_baseUrl request,
             p_version = u_version request, p_settings = u_settings request,
             p_createdAt = None, p_updatedAt = None, p_isActive = u_isActive request\<rparr> now
           = Inr (raw, store')
         \<and> updated = raw\<lparr>apiKey := decrypt (lib env) (encryptionKey env) (apiKey raw)\<rparr>
         \<and> factory' = Some (clearTenantCache (getApiClientFactory factoryInstance) tid)"
  using assms
  by (auto simp: updateTenant_def Let_def split: option.splits sum.splits if_splits)

lemma updateTenant_acme_BB:
  "updateTenant plain_env store_Aa (Some factory_Aa) ''acme'' rotate_BB [1] 5000 =
     Inr (acme\<lparr>apiKey := js ''BB'', updatedAt := 5000\<rparr>,
          CompositeTenantStore
            (InMemoryTenantStore [(''acme'', acme\<lparr>apiKey := js ''01:01:4242'', updatedAt := 5000\<rparr>)])
            (EnvVarTenantStore None),
          Some (clearTenantCache factory_Aa ''acme''))"
  by (simp add: updateTenant_def plain_env_def store_Aa_def rotate_BB_def Let_def acme_def
      truthy_def over_def over_opt_def spread_def testTenantConfig_def
      encrypt_def decrypt_def plain_lib_def to_hex_def digit_char_def js_char_of js_def
      hex_val_def getApiClientFactory_def unit_bytes_def high_surrogate_def low_surrogate_def
      code_point_units_def utf8_to_utf16_def)

lemma factory_Aa_cache:
  "clientCache factory_Aa =
     [(''acme_1mo'', \<lparr>client = createClient acme_Aa, lastUsed = 10, cc_tenantId = ''acme''\<rparr>)]"
  by (simp add: factory_Aa_def getClient_def new_factory_def or_default_def getCacheKey_def
      hashString_Aa addToCache_def Let_def acme_def acme_Aa_def)

lemma updateTenant_acme:
  "updateTenant plain_env acme_store (Some cached_factory) ''acme'' rotate_request [1] 5000 =
     Inr (acme\<lparr>apiKey := js ''k2'', updatedAt := 5000\<rparr>,
          CompositeTenantStore
            (InMemoryTenantStore [(''acme'', acme\<lparr>apiKey := js ''01:01:6b32'', updatedAt := 5000\<rparr>)])
            (EnvVarTenantStore None),
          Some (clearTenantCache cached_factory ''acme''))"
  by (simp add: updateTenant_def plain_env_def acme_store_def rotate_request_def Let_def acme_def
      truthy_def over_def over_opt_def spread_def testTenantConfig_def
      encrypt_def decrypt_def plain_lib_def to_hex_def digit_char_def js_char_of js_def
      hex_val_def getApiClientFactory_def unit_bytes_def high_surrogate_def low_surrogate_def
      code_point_units_def utf8_to_utf16_def)

lemma cached_factory_cache:
  "clientCache cached_factory =
     [(''acme_2li'', \<lparr>client = createClient acme, lastUsed = 10, cc_tenantId = ''acme''\<rparr>)]"
  by (simp add: cached_factory_def getClient_def new_factory_def or_default_def getCacheKey_def
      hashString_k1 addToCache_def Let_def acme_def)

text \<open>
  C1, as stated, with a request in flight. The tenant \<open>acme\<close> has the key \<open>Aa\<close> and a
  client cached under \<open>acme_1mo\<close>; \<open>getTenant\<close> has handed the decrypted record to a
  request. \<open>updateTenant\<close> to the key \<open>BB\<close> succeeds and clears the cache. The hashes
  of \<open>Aa\<close> and \<open>BB\<close> are both \<open>1mo\<close>, so when the request in flight calls
  \<open>getClient\<close> with its record, the client built from \<open>Aa\<close> is cached under the key
  of the updated record, and \<open>getClient\<close> with the updated record returns that client,
  whose access token is the old key.
\<close>

theorem C1_counterexample:
  "getTenant plain_env store_Aa ''acme'' = Some acme_Aa
   \<and> map_option client (map_of (clientCache factory_Aa) ''acme_1mo'') = Some (createClient acme_Aa)
   \<and> updateTenant plain_env store_Aa (Some factory_Aa) ''acme'' rotate_BB [1] 5000 =
       Inr (acme\<lparr>apiKey := js ''BB'', updatedAt := 5000\<rparr>,
            CompositeTenantStore
              (InMemoryTenantStore [(''acme'', acme\<lparr>apiKey := js ''01:01:4242'', updatedAt := 5000\<rparr>)])
              (EnvVarTenantStore None),
            Some (clearTenantCache factory_Aa ''acme''))
   \<and> clientCache (clearTenantCache factory_Aa ''acme'') = []
   \<and> getCacheKey acme_Aa = ''acme_1mo''
   \<and> getCacheKey (acme\<lparr>apiKey := js ''BB'', updatedAt := 5000\<rparr>) = ''acme_1mo''
   \<and> fst (getClient (getClients (clearTenantCache factory_Aa ''acme'') [(acme_Aa, 5001, 5001)])
            (acme\<lparr>apiKey := js ''BB'', updatedAt := 5000\<rparr>) 5002 5002) =
       GHLApiClient \<lparr>accessToken = js ''Aa'', cfg_baseUrl = ''https://services.leadconnectorhq.com'',
                     cfg_version = ''2021-07-28'', cfg_locationId = ''L1''\<rparr>
   \<and> createClient (acme\<lparr>apiKey := js ''BB'', updatedAt := 5000\<rparr>) =
       GHLApiClient \<lparr>accessToken = js ''BB'', cfg_baseUrl = ''https://services.leadconnectorhq.com'',
                     cfg_version = ''2021-07-28'', cfg_locationId = ''L1''\<rparr>
   \<and> js ''Aa'' \<noteq> js ''BB''"
proof -
  have a: "getTenant plain_env store_Aa ''acme'' = Some acme_Aa"
    by (simp add: getTenant_def plain_env_def store_Aa_def acme_Aa_def acme_def
        decrypt_def plain_lib_def js_def hex_val_def unit_bytes_def high_surrogate_def
        low_surrogate_def code_point_units_def utf8_to_utf16_def)
  have b: "map_option client (map_of (clientCache factory_Aa) ''acme_1mo'') = Some (createClient acme_Aa)"
    by (simp add: factory_Aa_cache)
  note c = updateTenant_acme_BB
  have d: "clientCache (clearTenantCache factory_Aa ''acme'') = []"
    by (simp add: clearTenantCache_def factory_Aa_cache)
  have e: "getCacheKey acme_Aa = ''acme_1mo''"
    by (simp add: getCacheKey_def acme_Aa_def acme_def hashString_Aa)
  have f: "getCacheKey (acme\<lparr>apiKey := js ''BB'', updatedAt := 5000\<rparr>) = ''acme_1mo''"
    by (simp add: getCacheKey_def acme_def hashString_BB)
  have g: "fst (getClient (getClients (clearTenantCache factory_Aa ''acme'') [(acme_Aa, 5001, 5001)])
            (acme\<lparr>apiKey := js ''BB'', updatedAt := 5000\<rparr>) 5002 5002) =
       GHLApiClient \<lparr>accessToken = js ''Aa'', cfg_baseUrl = ''https://services.leadconnectorhq.com'',
                     cfg_version = ''2021-07-28'', cfg_locationId = ''L1''\<rparr>"
  proof -
    have "fst (getClient (getClients (clearTenantCache factory_Aa ''acme'') [(acme_Aa, 5001, 5001)])
            (acme\<lparr>apiKey := js ''BB'', updatedAt := 5000\<rparr>) 5002 5002) = createClient acme_Aa"
      by (simp add: getClient_def e f d addToCache_def Let_def)
    then show ?thesis by (simp add: createClient_def acme_Aa_def acme_def str_or_def)
  qed
  have h: "createClient (acme\<lparr>apiKey := js ''BB'', updatedAt := 5000\<rparr>) =
       GHLApiClient \<lparr>accessToken = js ''BB'', cfg_baseUrl = ''https://services.leadconnectorhq.com'',
                     cfg_version = ''2021-07-28'', cfg_locationId = ''L1''\<rparr>"
    by (simp add: createClient_def acme_def str_or_def)
  have i: "js ''Aa'' \<noteq> js ''BB''" by (simp add: js_def)
  show ?thesis by (intro conjI) (rule a b c d e f g h i)+
qed

text \<open>
  C1, amended. The store and the factory's cache are well formed. When \<open>updateTenant\<close>
  with a new \<open>apiKey\<close> succeeds, the factory holds no entry for the tenant id any more,
  the returned record carries the id and the decrypted new key (the new key itself when
  the cipher and the UTF-8 conversion round-trip on it), and its cache key is the id, an
  underscore and the hash of that key. After any sequence of \<open>getClient\<close> calls each of
  which is for another tenant id, or has a key whose hash differs from the hash of the
  updated record's key, or builds the same client as the updated record, \<open>getClient\<close>
  with the updated record returns the client constructed from it, whose access token is
  the updated record's key.
\<close>

theorem C1_update_invalidates_cached_clients:
  assumes wf_store: "store_wf tenantStore"
    and wf_cache: "cache_wf (clientCache (getApiClientFactory factoryInstance))"
    and upd: "updateTenant env tenantStore factoryInstance tid request iv now =
                Inr (updated, store', factory')"
    and key: "u_apiKey request = Some newKey"
    and calls: "\<forall>call\<in>set calls.
                  tenantId (fst call) \<noteq> tid
                  \<or> hashString (apiKey (fst call)) \<noteq> hashString (apiKey updated)
                  \<or> createClient (fst call) = createClient updated"
  shows "factory' = Some (clearTenantCache (getApiClientFactory factoryInstance) tid)
    \<and> list_all (\<lambda>e. cc_tenantId (snd e) \<noteq> tid)
         (clientCache (clearTenantCache (getApiClientFactory factoryInstance) tid))
    \<and> tenantId updated = tid
    \<and> apiKey updated = decrypt (lib env) (encryptionKey env) (encrypt (lib env) (encryptionKey env) iv newKey)
    \<and> (cipher_decrypt (lib env) (encryptionKey env) iv
          (snd (cipher_encrypt (lib env) (encryptionKey env) iv (utf8_encode (lib env) newKey)))
          (fst (cipher_encrypt (lib env) (encryptionKey env) iv (utf8_encode (lib env) newKey)))
        = Some (utf8_encode (lib env) newKey)
        \<and> utf8_decode (lib env) (utf8_encode (lib env) newKey) = newKey
        \<longrightarrow> apiKey updated = newKey)
    \<and> getCacheKey updated = tid @ ''_'' @ hashString (apiKey updated)
    \<and> fst (getClient (getClients (clearTenantCache (getApiClientFactory factoryInstance) tid) calls)
              updated t_used t_evict) = createClient updated
    \<and> accessToken (client_config (createClient updated)) = apiKey updated"
proof -
  let ?f = "clearTenantCache (getApiClientFactory factoryInstance) tid"
  let ?p = "\<lparr>p_tenantId = None, p_name = u_name request,
             p_apiKey = map_option (encrypt (lib env) (encryptionKey env) iv) (u_apiKey request),
             p_locationId = u_locationId request, p_baseUrl = u_baseUrl request,
             p_version = u_version request, p_settings = u_settings request,
             p_createdAt = None, p_updatedAt = None, p_isActive = u_isActive request\<rparr>"
  from updateTenant_Inr [OF upd] obtain raw where
    su: "store_update tenantStore tid ?p now = Inr (raw, store')"
    and u: "updated = raw\<lparr>apiKey := decrypt (lib env) (encryptionKey env) (apiKey raw)\<rparr>"
    and f: "factory' = Some ?f"
    by blast
  have "tenantId raw = tid"
    using store_update_id [OF wf_store su] by (simp add: over_def)
  then have tid: "tenantId updated = tid" using u by simp
  have raw: "apiKey raw = encrypt (lib env) (encryptionKey env) iv newKey"
    using store_update_apiKey [OF _ su] key by simp
  then have k: "apiKey updated =
      decrypt (lib env) (encryptionKey env) (encrypt (lib env) (encryptionKey env) iv newKey)"
    using u by simp
  obtain ct tag where
    e: "cipher_encrypt (lib env) (encryptionKey env) iv (utf8_encode (lib env) newKey) = (ct, tag)"
    by (cases "cipher_encrypt (lib env) (encryptionKey env) iv (utf8_encode (lib env) newKey)")
  have rt: "cipher_decrypt (lib env) (encryptionKey env) iv
          (snd (cipher_encrypt (lib env) (encryptionKey env) iv (utf8_encode (lib env) newKey)))
          (fst (cipher_encrypt (lib env) (encryptionKey env) iv (utf8_encode (lib env) newKey)))
        = Some (utf8_encode (lib env) newKey)
        \<and> utf8_decode (lib env) (utf8_encode (lib env) newKey) = newKey
        \<longrightarrow> apiKey updated = newKey"
    using decrypt_encrypt [OF e] k by (simp add: e)
  have ck: "getCacheKey updated = tid @ ''_'' @ hashString (apiKey updated)"
    using tid by (simp add: getCacheKey_def)
  have cleared: "list_all (\<lambda>e. cc_tenantId (snd e) \<noteq> tid) (clientCache ?f)"
    by (auto simp: clearTenantCache_def list_all_iff)
  have "\<forall>e\<in>set (clientCache ?f). fst e \<noteq> getCacheKey updated"
    using clearTenantCache_inv [OF wf_cache, of updated] tid by simp
  then have inv: "\<forall>e\<in>set (clientCache ?f).
      fst e = getCacheKey updated \<longrightarrow> client (snd e) = createClient updated"
    by simp
  have "\<forall>call\<in>set calls. getCacheKey (fst call) = getCacheKey updated
          \<longrightarrow> createClient (fst call) = createClient updated"
  proof (intro ballI impI)
    fix call
    assume m: "call \<in> set calls" and eq: "getCacheKey (fst call) = getCacheKey updated"
    from getCacheKey_eq [OF eq] tid
    have "tenantId (fst call) = tid" "hashString (apiKey (fst call)) = hashString (apiKey updated)"
      by simp_all
    then show "createClient (fst call) = createClient updated" using calls m by auto
  qed
  from getClients_inv [OF inv this]
  have res: "fst (getClient (getClients ?f calls) updated t_used t_evict) = createClient updated"
    by (rule getClient_result)
  have tok: "accessToken (client_config (createClient updated)) = apiKey updated"
    by (simp add: createClient_def)
  show ?thesis by (intro conjI) (rule f cleared tid k rt ck res tok)+
qed

theorem C1_update_invalidates_cached_clients_witness:
  "map_option client (map_of (clientCache cached_factory) ''acme_2li'') = Some (createClient acme)
   \<and> updateTenant plain_env acme_store (Some cached_factory) ''acme'' rotate_request [1] 5000 =
       Inr (acme\<lparr>apiKey := js ''k2'', updatedAt := 5000\<rparr>,
            CompositeTenantStore
              (InMemoryTenantStore [(''acme'', acme\<lparr>apiKey := js ''01:01:6b32'', updatedAt := 5000\<rparr>)])
              (EnvVarTenantStore None),
            Some (clearTenantCache cached_factory ''acme''))
   \<and> getCacheKey (acme\<lparr>apiKey := js ''k2'', updatedAt := 5000\<rparr>) = ''acme_2lj''
   \<and> fst (getClient (getClients (clearTenantCache cached_factory ''acme'')
                        [(beta, 5001, 5001), (acme, 5001, 5001)])
            (acme\<lparr>apiKey := js ''k2'', updatedAt := 5000\<rparr>) 5002 5002) =
       GHLApiClient \<lparr>accessToken = js ''k2'', cfg_baseUrl = ''https://services.leadconnectorhq.com'',
                     cfg_version = ''2021-07-28'', cfg_locationId = ''L1''\<rparr>"
proof -
  have old: "map_option client (map_of (clientCache cached_factory) ''acme_2li'') = Some (createClient acme)"
    by (simp add: cached_factory_cache)
  have h1: "store_wf acme_store" by (simp add: acme_store_def acme_def)
  have h2: "cache_wf (clientCache (getApiClientFactory (Some cached_factory)))"
    by (simp add: getApiClientFactory_def cached_factory_cache cache_wf_def entry_wf_def)
  note h3 = updateTenant_acme
  have h4: "u_apiKey rotate_request = Some (js ''k2'')" by (simp add: rotate_request_def)
  have h5: "\<forall>call\<in>set [(beta, 5001 :: int, 5001 :: int), (acme, 5001, 5001)].
      tenantId (fst call) \<noteq> ''acme''
      \<or> hashString (apiKey (fst call)) \<noteq> hashString (apiKey (acme\<lparr>apiKey := js ''k2'', updatedAt := 5000\<rparr>))
      \<or> createClient (fst call) = createClient (acme\<lparr>apiKey := js ''k2'', updatedAt := 5000\<rparr>)"
    by (simp add: beta_def acme_def hashString_k1 hashString_k2)
  note main = C1_update_invalidates_cached_clients [OF h1 h2 h3 h4 h5, of 5002 5002]
  have ck: "getCacheKey (acme\<lparr>apiKey := js ''k2'', updatedAt := 5000\<rparr>) = ''acme_2lj''"
    using main by (simp add: acme_def hashString_k2)
  have "fst (getClient (getClients (clearTenantCache cached_factory ''acme'')
                         [(beta, 5001, 5001), (acme, 5001, 5001)])
            (acme\<lparr>apiKey := js ''k2'', updatedAt := 5000\<rparr>) 5002 5002) =
        createClient (acme\<lparr>apiKey := js ''k2'', updatedAt := 5000\<rparr>)"
    using main by (simp add: getApiClientFactory_def)
  also have "\<dots> = GHLApiClient \<lparr>accessToken = js ''k2'', cfg_baseUrl = ''https://services.leadconnectorhq.com'',
                     cfg_version = ''2021-07-28'', cfg_locationId = ''L1''\<rparr>"
    by (simp add: createClient_def acme_def str_or_def)
  finally have new: "fst (getClient (getClients (clearTenantCache cached_factory ''acme'')
                         [(beta, 5001, 5001), (acme, 5001, 5001)])
            (acme\<lparr>apiKey := js ''k2'', updatedAt := 5000\<rparr>) 5002 5002) =
       GHLApiClient \<lparr>accessToken = js ''k2'', cfg_baseUrl = ''https://services.leadconnectorhq.com'',
                     cfg_version = ''2021-07-28'', cfg_locationId = ''L1''\<rparr>" .
  show ?thesis by (intro conjI) (rule old h3 ck new)+
qed

section \<open>The well-formedness of the cache is kept\<close>

lemma new_factory_cache_wf: "cache_wf (clientCache (new_factory optMax optTtl))"
  by (simp add: new_factory_def cache_wf_def)

lemma getClient_cache_wf:
  assumes wf: "cache_wf (clientCache f)"
  shows "cache_wf (clientCache (snd (getClient f c t_used t_evict)))"
proof (cases "map_of (clientCache f) (getCacheKey c)")
  case None
  let ?new = "\<lparr>client = createClient c, lastUsed = t_used, cc_tenantId = tenantId c\<rparr>"
  have sub: "set (clientCache (snd (getClient f c t_used t_evict)))
               \<subseteq> insert (getCacheKey c, ?new) (set (clientCache f))"
    using None set_update_subset [of "getCacheKey c" ?new] set_delete_subset
    by (fastforce simp: getClient_def addToCache_def Let_def split: option.splits if_splits)
  have "entry_wf (getCacheKey c, ?new)" by (rule entry_wf_new)
  then show ?thesis using wf sub by (auto simp: cache_wf_iff)
next
  case (Some cached)
  then have mem: "(getCacheKey c, cached) \<in> set (clientCache f)" by (rule map_of_SomeD)
  let ?new = "cached\<lparr>lastUsed := t_used\<rparr>"
  have sub: "set (clientCache (snd (getClient f c t_used t_evict)))
               \<subseteq> insert (getCacheKey c, ?new) (set (clientCache f))"
    using Some set_update_subset [of "getCacheKey c" ?new] by (simp add: getClient_def Let_def)
  have "entry_wf (getCacheKey c, ?new)" using wf mem by (auto simp: entry_wf_def cache_wf_iff)
  then show ?thesis using wf sub by (auto simp: cache_wf_iff)
qed

lemma clearTenantCache_cache_wf:
  "cache_wf (clientCache f) \<Longrightarrow> cache_wf (clientCache (clearTenantCache f tid))"
  by (auto simp: clearTenantCache_def cache_wf_iff)

lemma cleanupExpiredClients_cache_wf:
  "cache_wf (clientCache f) \<Longrightarrow> cache_wf (clientCache (cleanupExpiredClients f now))"
  by (auto simp: cleanupExpiredClients_def cache_wf_iff)

section \<open>Eviction when the clock has advanced\<close>

text \<open>The scan of \<open>addToCache\<close>: without an entry older than the starting time the key stays
  \<open>null\<close>; otherwise the key found is that of an entry with the least \<open>lastUsed\<close>.\<close>

lemma find_oldest_none:
  "\<forall>e\<in>set cache. \<not> lastUsed (snd e) < t \<Longrightarrow> find_oldest cache acc t = acc"
  by (induction cache arbitrary: acc t) auto

lemma find_oldest_min:
  "\<exists>e\<in>set cache. lastUsed (snd e) < t \<Longrightarrow>
   \<exists>k v. find_oldest cache acc t = Some k \<and> (k, v) \<in> set cache \<and> lastUsed v < t
         \<and> (\<forall>e\<in>set cache. lastUsed v \<le> lastUsed (snd e))"
proof (induction cache arbitrary: acc t)
  case Nil
  then show ?case by simp
next
  case (Cons kv cache)
  obtain k v where kv: "kv = (k, v)" by (cases kv)
  show ?case
  proof (cases "lastUsed v < t")
    case True
    show ?thesis
    proof (cases "\<exists>e\<in>set cache. lastUsed (snd e) < lastUsed v")
      case True
      from Cons.IH [OF this, of "Some k"] obtain k' v' where
        f: "find_oldest cache (Some k) (lastUsed v) = Some k'" and m: "(k', v') \<in> set cache"
        and lt: "lastUsed v' < lastUsed v" and mn: "\<forall>e\<in>set cache. lastUsed v' \<le> lastUsed (snd e)"
        by blast
      have "find_oldest (kv # cache) acc t = Some k'" using \<open>lastUsed v < t\<close> f by (simp add: kv)
      moreover have "(k', v') \<in> set (kv # cache)" using m by simp
      moreover have "lastUsed v' < t" using lt \<open>lastUsed v < t\<close> by simp
      moreover have "\<forall>e\<in>set (kv # cache). lastUsed v' \<le> lastUsed (snd e)" using mn lt by (simp add: kv)
      ultimately show ?thesis by blast
    next
      case False
      then have "find_oldest cache (Some k) (lastUsed v) = Some k" by (intro find_oldest_none) auto
      then have "find_oldest (kv # cache) acc t = Some k" using \<open>lastUsed v < t\<close> by (simp add: kv)
      moreover have "(k, v) \<in> set (kv # cache)" by (simp add: kv)
      moreover have "\<forall>e\<in>set (kv # cache). lastUsed v \<le> lastUsed (snd e)"
        using False by (auto simp: kv)
      ultimately show ?thesis using \<open>lastUsed v < t\<close> by blast
    qed
  next
    case False
    then have "\<exists>e\<in>set cache. lastUsed (snd e) < t" using Cons.prems kv by auto
    from Cons.IH [OF this, of acc] obtain k' v' where
      f: "find_oldest cache acc t = Some k'" and m: "(k', v') \<in> set cache"
      and lt: "lastUsed v' < t" and mn: "\<forall>e\<in>set cache. lastUsed v' \<le> lastUsed (snd e)"
      by blast
    have "find_oldest (kv # cache) acc t = Some k'" using False f by (simp add: kv)
    moreover have "(k', v') \<in> set (kv # cache)" using m by simp
    moreover have "\<forall>e\<in>set (kv # cache). lastUsed v' \<le> lastUsed (snd e)"
      using mn lt False by (simp add: kv)
    ultimately show ?thesis using lt by blast
  qed
qed

lemma length_update:
  "length (AList.update k v al) = (if k \<in> fst ` set al then length al else Suc (length al))"
  by (induction al) auto

lemma length_delete:
  "distinct (map fst al) \<Longrightarrow> (k, v) \<in> set al \<Longrightarrow> Suc (length (AList.delete k al)) = length al"
proof (induction al)
  case Nil
  then show ?case by simp
next
  case (Cons a al)
  show ?case
  proof (cases "fst a = k")
    case True
    then have "k \<notin> fst ` set al" using Cons.prems(1) by auto
    then have "AList.delete k al = al" by (rule AList.delete_id)
    then show ?thesis using True by simp
  next
    case False
    then have "(k, v) \<in> set al" using Cons.prems(2) by auto
    from Cons.IH [OF _ this] Cons.prems(1) False show ?thesis by simp
  qed
qed

lemma entry_wf_key_nonempty: "entry_wf (k, v) \<Longrightarrow> k \<noteq> []"
  by (auto simp: entry_wf_def)

text \<open>
  When the cache holds an entry that is strictly older than the clock reading of the
  eviction scan, \<open>getClient\<close> keeps the cache within \<open>maxCacheSize\<close>: at capacity,
  one entry with the least \<open>lastUsed\<close> is removed before the new one is added.
\<close>

lemma getClient_bound:
  assumes wf: "cache_wf (clientCache f)"
    and d: "distinct (map fst (clientCache f))"
    and b: "int (length (clientCache f)) \<le> maxCacheSize f"
    and old: "\<exists>e\<in>set (clientCache f). lastUsed (snd e) < t_evict"
  shows "int (length (clientCache (snd (getClient f c t_used t_evict)))) \<le> maxCacheSize f
    \<and> maxCacheSize (snd (getClient f c t_used t_evict)) = maxCacheSize f"
proof (cases "map_of (clientCache f) (getCacheKey c)")
  case (Some cached)
  then have "getCacheKey c \<in> fst ` set (clientCache f)" by (force dest: map_of_SomeD)
  then show ?thesis using Some b by (simp add: getClient_def Let_def length_update)
next
  case None
  from find_oldest_min [OF old, of None] obtain k v where
    fo: "find_oldest (clientCache f) None t_evict = Some k" and mem: "(k, v) \<in> set (clientCache f)"
    by blast
  have ne: "k \<noteq> []" using wf mem entry_wf_key_nonempty by (auto simp: cache_wf_iff)
  have len: "Suc (length (AList.delete k (clientCache f))) = length (clientCache f)"
    by (rule length_delete [OF d mem])
  let ?new = "\<lparr>client = createClient c, lastUsed = t_used, cc_tenantId = tenantId c\<rparr>"
  have l1: "length (AList.update (getCacheKey c) ?new (AList.delete k (clientCache f)))
              \<le> length (clientCache f)"
    using len by (simp add: length_update)
  have l2: "length (AList.update (getCacheKey c) ?new (clientCache f)) \<le> Suc (length (clientCache f))"
    by (simp add: length_update)
  show ?thesis
  proof (cases "int (length (clientCache f)) \<ge> maxCacheSize f")
    case True
    then show ?thesis using None fo ne b l1
      by (simp add: getClient_def addToCache_def Let_def)
  next
    case False
    then show ?thesis using None l2
      by (simp add: getClient_def addToCache_def Let_def)
  qed
qed


end
